theory Spec2Isabelle
  imports Main "HOL-Library.Word" "HOL-Library.Signed_Division"
begin

section \<open>Data model of the sketch (main.ino)\<close>

text \<open>
  The sketch runs on an Arduino MKR1000, where \<open>int\<close> is a 32-bit two's complement
  integer. The \<open>int\<close> fields of the structs are modelled as HOL integers; C's \<open>/\<close> and
  \<open>%\<close> truncate towards zero and are written \<open>sdiv\<close> and \<open>smod\<close>. Where the C code would
  leave the defined behaviour of the language (an index outside an array, a signed
  overflow) the model returns a \<open>fault\<close> instead of a value.
  The fixed-size arrays are lists; \<open>valid_context\<close> fixes their lengths.
  A \<open>double\<close> is kept as its 64-bit pattern: the state handlers only store and copy
  coordinates, and floating-point arithmetic is not modelled.
\<close>

type_synonym double = "64 word"

record goal =
  lt :: double
  ln :: double
  passwd :: "8 word list"

text \<open>The \<open>bool* event\<close> of a button points at one of three flags of the state.\<close>

datatype event_ref = ST_RESET | ST_POS | ST_COUNT

record button =
  was_down :: bool
  event :: event_ref
  pin :: int

record state =
  satcon :: bool
  reached :: bool
  passwd :: bool
  fetched :: bool
  completed :: bool
  reset :: bool
  pos :: bool
  count :: bool

record context_t =
  input_pos :: int
  display_value :: "int list"
  distance :: int
  current_goal :: int
  final_goal :: int
  goals :: "goal list"
  st :: state
  btn :: "button list"

text \<open>The recursive \<open>handler\<close> type: a handler is one of the six state functions.\<close>

datatype handler = MAIN | FETCH | SATCON | SUBGOAL | NEXT_GOAL | COMPLETE

datatype fault = OutOfBounds | SignedOverflow

subsection \<open>Globals\<close>

definition INT_MAX :: int where "INT_MAX = 2147483647"
definition INT_MIN :: int where "INT_MIN = - 2147483648"

definition BTN_DELAY :: "32 word" where "BTN_DELAY = 100"
definition BLANK_C :: int where "BLANK_C = 255"
definition DASH_C :: int where "DASH_C = 254"
definition RESET :: int where "RESET = 0"
definition POS :: int where "POS = 1"
definition COUNT :: int where "COUNT = 4"
definition LED_R :: int where "LED_R = 2"
definition GPS_TIMEOUT :: "32 word" where "GPS_TIMEOUT = 4000"
definition DST_TOLERANCE :: int where "DST_TOLERANCE = 20"

definition is_int :: "int \<Rightarrow> bool" where
  "is_int x = (INT_MIN \<le> x \<and> x \<le> INT_MAX)"

text \<open>A context as the C struct can hold it: array lengths and 32-bit fields.\<close>

definition valid_context :: "context_t \<Rightarrow> bool" where
  "valid_context ct =
     (is_int (input_pos ct) \<and> is_int (distance ct) \<and>
      is_int (current_goal ct) \<and> is_int (final_goal ct) \<and>
      length (display_value ct) = 4 \<and> list_all is_int (display_value ct) \<and>
      length (goals ct) = 10 \<and> list_all (\<lambda>g. length (goal.passwd g) = 4) (goals ct) \<and>
      length (btn ct) = 3 \<and> list_all (\<lambda>b. is_int (pin b)) (btn ct))"

subsection \<open>Utilities\<close>

definition init_context :: "context_t \<Rightarrow> context_t" where
  "init_context ct =
     ct\<lparr> input_pos := 0,
         display_value := fold (\<lambda>i dv. dv[i := - 1]) [0..<4] (display_value ct),
         distance := - 1,
         current_goal := 0,
         final_goal := - 1,
         st := \<lparr> satcon = False, reached = False, passwd = False, fetched = False,
                 completed = False, reset = False, pos = False, count = False \<rparr>,
         btn := (btn ct)[0 := \<lparr> was_down = False, event = ST_RESET, pin = RESET \<rparr>,
                         1 := \<lparr> was_down = False, event = ST_POS, pin = POS \<rparr>,
                         2 := \<lparr> was_down = False, event = ST_COUNT, pin = COUNT \<rparr>] \<rparr>"

text \<open>
  The global \<open>ct_g\<close> before \<open>setup\<close> runs: static storage is zero-initialised. The
  \<open>event\<close> pointers are null then; \<open>init_context\<close> assigns them before any use, and
  \<open>ST_RESET\<close> stands in for them here.
\<close>

definition zero_goal :: goal where
  "zero_goal = \<lparr> lt = 0, ln = 0, passwd = [0, 0, 0, 0] \<rparr>"

definition ct_g :: context_t where
  "ct_g =
     \<lparr> input_pos = 0, display_value = [0, 0, 0, 0], distance = 0, current_goal = 0,
       final_goal = 0, goals = replicate 10 zero_goal,
       st = \<lparr> satcon = False, reached = False, passwd = False, fetched = False,
              completed = False, reset = False, pos = False, count = False \<rparr>,
       btn = replicate 3 \<lparr> was_down = False, event = ST_RESET, pin = 0 \<rparr> \<rparr>"

text \<open>Conversion of an \<open>int\<close> to \<open>int8_t\<close> (the local \<open>digit\<close> of \<open>set_distance\<close>).\<close>

definition to_int8 :: "int \<Rightarrow> int" where
  "to_int8 x = (x + 128) mod 256 - 128"

text \<open>
  The loop of \<open>set_distance\<close>, from index \<open>i\<close> with the loop variables
  \<open>dig_enable\<close>, \<open>upper\<close> and \<open>lower\<close>.
\<close>

function set_distance_loop :: "nat \<Rightarrow> bool \<Rightarrow> int \<Rightarrow> int \<Rightarrow> context_t \<Rightarrow> context_t" where
  "set_distance_loop i dig_enable upper lower ct =
     (if i < 4 then
        let digit = to_int8 ((distance ct smod upper) sdiv lower);
            dig_enable' = (if \<not> dig_enable then digit > 0 else dig_enable);
            ct' = ct\<lparr> display_value :=
                       (display_value ct)[i := (if dig_enable' then digit else BLANK_C)] \<rparr>
        in set_distance_loop (i + 1) dig_enable' lower (lower sdiv 10) ct'
      else ct)"
  by pat_completeness auto
termination
  by (relation "measure (\<lambda>(i, _, _, _, _). 4 - i)") auto

definition set_distance :: "context_t \<Rightarrow> context_t" where
  "set_distance ct = set_distance_loop 0 False 10000 1000 ct"

subsection \<open>Location\<close>

text \<open>
  What \<open>update_loc\<close> reads once \<open>gps.encode\<close> has completed a sentence: the location
  (after \<open>deg_to_rad\<close>), the number of satellites and the clock.
\<close>

record gps_fix =
  fix_lt :: double
  fix_ln :: double
  fix_satellites :: "32 word"
  fix_millis :: "32 word"

text \<open>
  The polling loop of \<open>update_loc\<close>, on the list of its iterations before the timeout
  (\<open>None\<close>: no byte, or no complete sentence yet). The state is the context with the
  function's static \<open>last_update\<close>. The great-circle distance is computed in floating
  point; \<open>haversine g lt ln\<close> stands for the \<open>int\<close> that the source obtains for the goal
  \<open>g\<close> and the location \<open>lt\<close>, \<open>ln\<close>.
\<close>

fun update_loc_poll ::
  "(goal \<Rightarrow> double \<Rightarrow> double \<Rightarrow> int) \<Rightarrow> gps_fix option list \<Rightarrow> context_t \<times> 32 word \<Rightarrow>
     fault + context_t \<times> 32 word" where
  "update_loc_poll haversine [] s = Inr s"
| "update_loc_poll haversine (None # polls) s = update_loc_poll haversine polls s"
| "update_loc_poll haversine (Some f # polls) s =
     (let ct = fst s; last_update = snd s
      in if fetched (st ct) \<and> \<not> (0 \<le> current_goal ct \<and> current_goal ct < 10)
         then Inl OutOfBounds
         else
           let d = haversine (goals ct ! nat (current_goal ct)) (fix_lt f) (fix_ln f);
               ct1 = (if fetched (st ct)
                      then ct\<lparr> distance := d,
                               st := (st ct)\<lparr> reached := (d \<le> DST_TOLERANCE) \<rparr> \<rparr>
                      else ct)
           in if fix_satellites f \<ge> 3
              then Inr (ct1\<lparr> st := (st ct1)\<lparr> satcon := True \<rparr> \<rparr>, fix_millis f)
              else Inr (ct1, last_update))"

text \<open>\<open>t_end\<close> is the value of \<open>millis()\<close> in the last statement of \<open>update_loc\<close>.\<close>

definition update_loc ::
  "(goal \<Rightarrow> double \<Rightarrow> double \<Rightarrow> int) \<Rightarrow> gps_fix option list \<Rightarrow> 32 word \<Rightarrow>
     context_t \<times> 32 word \<Rightarrow> fault + context_t \<times> 32 word" where
  "update_loc haversine polls t_end s =
     (case update_loc_poll haversine polls s of
        Inl e \<Rightarrow> Inl e
      | Inr (ct, last_update) \<Rightarrow>
          Inr (ct\<lparr> st := (st ct)\<lparr> satcon := (t_end < last_update + GPS_TIMEOUT) \<rparr> \<rparr>,
               last_update))"

subsection \<open>Buttons\<close>

text \<open>Writing through the \<open>event\<close> pointer of a button.\<close>

fun set_event :: "event_ref \<Rightarrow> bool \<Rightarrow> state \<Rightarrow> state" where
  "set_event ST_RESET v s = s\<lparr> reset := v \<rparr>"
| "set_event ST_POS v s = s\<lparr> pos := v \<rparr>"
| "set_event ST_COUNT v s = s\<lparr> count := v \<rparr>"

fun get_event :: "event_ref \<Rightarrow> state \<Rightarrow> bool" where
  "get_event ST_RESET s = reset s"
| "get_event ST_POS s = pos s"
| "get_event ST_COUNT s = count s"

text \<open>
  One iteration of the loop of \<open>update_buttons\<close>, for button \<open>i\<close>. The state is the
  context together with the function's static \<open>uint32_t next_check\<close>;
  \<open>current_time\<close> is the value \<open>millis()\<close> returned and \<open>digitalRead\<close> gives the level
  of each pin (\<open>True\<close> for HIGH). The buttons are active low.
\<close>

definition button_step ::
  "32 word \<Rightarrow> (int \<Rightarrow> bool) \<Rightarrow> nat \<Rightarrow> context_t \<times> 32 word \<Rightarrow> context_t \<times> 32 word" where
  "button_step current_time digitalRead i s =
     (let ct = fst s; next_check = snd s;
          b = btn ct ! i;
          now_down = (\<not> digitalRead (pin b))
      in if now_down \<noteq> was_down b then
           if current_time > next_check then
             (ct\<lparr> st := set_event (event b) now_down (st ct),
                  btn := (btn ct)[i := b\<lparr> was_down := now_down \<rparr>] \<rparr>,
              current_time + BTN_DELAY)
           else (ct\<lparr> st := set_event (event b) False (st ct) \<rparr>, next_check)
         else (ct\<lparr> st := set_event (event b) False (st ct) \<rparr>, next_check))"

definition update_buttons ::
  "32 word \<Rightarrow> (int \<Rightarrow> bool) \<Rightarrow> context_t \<times> 32 word \<Rightarrow> context_t \<times> 32 word" where
  "update_buttons current_time digitalRead s =
     fold (button_step current_time digitalRead) [0..<3] s"

text \<open>The static \<open>next_check\<close> starts at 0.\<close>

definition next_check_init :: "32 word" where
  "next_check_init = 0"

subsection \<open>States\<close>

text \<open>\<open>print_status\<close> is empty, since the sketch defines \<open>NDEBUG\<close>.\<close>

definition main_handler :: "context_t \<Rightarrow> context_t \<times> handler" where
  "main_handler ct0 =
     (let ct = (if \<not> fetched (st ct0)
                then ct0\<lparr> display_value :=
                       (display_value ct0)[0 := DASH_C, 1 := DASH_C, 2 := DASH_C, 3 := DASH_C] \<rparr>
                else set_distance ct0)
      in if \<not> reset (st ct) \<and> satcon (st ct) \<and> \<not> reached (st ct) then (ct, MAIN)
         else if reset (st ct) then (ct, FETCH)
         else if reached (st ct) then
           (ct\<lparr> display_value :=
                  (display_value ct)[0 := DASH_C, 1 := BLANK_C, 2 := BLANK_C, 3 := BLANK_C],
                input_pos := 0 \<rparr>, SUBGOAL)
         else (ct, SATCON))"

text \<open>The \<open>if(ct->st.pos)\<close> block of \<open>subgoal_handler\<close>.\<close>

definition subgoal_pos :: "context_t \<Rightarrow> fault + context_t" where
  "subgoal_pos ct =
     (if pos (st ct) then
        if 0 \<le> input_pos ct \<and> input_pos ct < 4 then
          let p = nat (input_pos ct);
              dv = (if display_value ct ! p = DASH_C then (display_value ct)[p := BLANK_C]
                    else display_value ct);
              input_pos' = (input_pos ct + 1) smod 4
          in Inr (ct\<lparr> input_pos := input_pos',
                       display_value := dv[nat input_pos' := DASH_C] \<rparr>)
        else Inl OutOfBounds
      else Inr ct)"

text \<open>The \<open>if(ct->st.count)\<close> block of \<open>subgoal_handler\<close>.\<close>

definition subgoal_count :: "context_t \<Rightarrow> fault + context_t" where
  "subgoal_count ct =
     (if count (st ct) then
        if 0 \<le> input_pos ct \<and> input_pos ct < 4 then
          let p = nat (input_pos ct); v = display_value ct ! p
          in if v = DASH_C then Inr (ct\<lparr> display_value := (display_value ct)[p := 0] \<rparr>)
             else if v + 1 > INT_MAX then Inl SignedOverflow
             else Inr (ct\<lparr> display_value := (display_value ct)[p := (v + 1) smod 16] \<rparr>)
        else Inl OutOfBounds
      else Inr ct)"

text \<open>
  The comparison loop: \<open>match_c\<close> is a \<open>uint8_t\<close>, a password digit is promoted to
  \<open>int\<close> for the comparison.
\<close>

definition count_matches :: "int list \<Rightarrow> 8 word list \<Rightarrow> 8 word" where
  "count_matches dv pw =
     fold (\<lambda>i match_c. if dv ! i = uint (pw ! i) then match_c + 1 else match_c) [0..<4] 0"

definition subgoal_handler :: "context_t \<Rightarrow> fault + context_t \<times> handler" where
  "subgoal_handler ct0 =
     (case subgoal_pos ct0 of
        Inl e \<Rightarrow> Inl e
      | Inr ct1 \<Rightarrow>
          (case subgoal_count ct1 of
             Inl e \<Rightarrow> Inl e
           | Inr ct2 \<Rightarrow>
               if 0 \<le> current_goal ct2 \<and> current_goal ct2 < 10 then
                 let match_c = count_matches (display_value ct2)
                                 (goal.passwd (goals ct2 ! nat (current_goal ct2)));
                     ct = ct2\<lparr> st := (st ct2)\<lparr> passwd := (match_c = 4) \<rparr> \<rparr>
                 in Inr (if \<not> reset (st ct) \<and> \<not> state.passwd (st ct) \<and> satcon (st ct) \<and>
                            reached (st ct) then (ct, SUBGOAL)
                         else if reset (st ct) then (ct, FETCH)
                         else if state.passwd (st ct) then (ct, NEXT_GOAL)
                         else if \<not> satcon (st ct) then (ct, SATCON)
                         else (ct, MAIN))
               else Inl OutOfBounds))"

text \<open>
  The polling loop of \<open>fetch_handler\<close> reads the clock and the serial port. Its input
  is the list of the loop's iterations before the timeout: \<open>None\<close> when no byte was
  available or \<open>gps.encode\<close> returned false, \<open>Some (lat, lng)\<close> when a sentence was
  completed, where \<open>lat\<close> and \<open>lng\<close> are the doubles that
  \<open>deg_to_rad(gps.location.lat())\<close> and \<open>deg_to_rad(gps.location.lng())\<close> then return.
\<close>

fun fetch_poll :: "(double \<times> double) option list \<Rightarrow> context_t \<Rightarrow> context_t" where
  "fetch_poll [] ct = ct"
| "fetch_poll (None # polls) ct = fetch_poll polls ct"
| "fetch_poll (Some (lat, lng) # polls) ct =
     ct\<lparr> goals := (goals ct)[0 := (goals ct ! 0)
                 \<lparr> lt := lat, ln := lng,
                   goal.passwd := (goal.passwd (goals ct ! 0))[0 := 0, 1 := 1, 2 := 2, 3 := 3] \<rparr>],
         current_goal := 0,
         final_goal := 0,
         st := (st ct)\<lparr> fetched := True \<rparr> \<rparr>"

definition fetch_handler :: "(double \<times> double) option list \<Rightarrow> context_t \<Rightarrow> context_t \<times> handler" where
  "fetch_handler polls ct0 =
     (let ct = fetch_poll polls (ct0\<lparr> st := (st ct0)\<lparr> fetched := False \<rparr> \<rparr>)
      in if reset (st ct) \<or> \<not> fetched (st ct) then (ct, FETCH) else (ct, MAIN))"

definition next_goal_handler :: "context_t \<Rightarrow> fault + context_t \<times> handler" where
  "next_goal_handler ct0 =
     (let ct = ct0\<lparr> st := (st ct0)\<lparr> completed := (current_goal ct0 = final_goal ct0) \<rparr> \<rparr>
      in if completed (st ct) then
           Inr (ct\<lparr> display_value :=
                  (display_value ct)[0 := DASH_C, 1 := DASH_C, 2 := DASH_C, 3 := DASH_C] \<rparr>,
                COMPLETE)
         else if current_goal ct + 1 > INT_MAX then Inl SignedOverflow
         else Inr (ct\<lparr> current_goal := current_goal ct + 1 \<rparr>, MAIN))"

definition complete_handler :: "context_t \<Rightarrow> context_t \<times> handler" where
  "complete_handler ct =
     (if \<not> reset (st ct) then (ct, COMPLETE)
      else (ct\<lparr> st := (st ct)\<lparr> completed := False \<rparr> \<rparr>, FETCH))"

text \<open>
  \<open>satcon_handler\<close> also drives the LED: the second component is the list of its
  \<open>digitalWrite\<close> calls, as pairs of pin and level (\<open>True\<close> for HIGH).
\<close>

definition satcon_handler :: "context_t \<Rightarrow> (context_t \<times> handler) \<times> (int \<times> bool) list" where
  "satcon_handler ct =
     (if \<not> satcon (st ct) then ((ct, SATCON), [(LED_R, True)])
      else ((ct, MAIN), [(LED_R, True), (LED_R, False)]))"

text \<open>The call \<open>handler_g.handle(&ct_g)\<close> of \<open>loop\<close>.\<close>

definition handle :: "handler \<Rightarrow> (double \<times> double) option list \<Rightarrow> context_t \<Rightarrow> fault + context_t \<times> handler" where
  "handle h polls ct =
     (case h of
        MAIN \<Rightarrow> Inr (main_handler ct)
      | FETCH \<Rightarrow> Inr (fetch_handler polls ct)
      | SATCON \<Rightarrow> Inr (fst (satcon_handler ct))
      | SUBGOAL \<Rightarrow> subgoal_handler ct
      | NEXT_GOAL \<Rightarrow> next_goal_handler ct
      | COMPLETE \<Rightarrow> Inr (complete_handler ct))"

subsection \<open>Setup and execution\<close>

text \<open>
  The globals of the sketch with the two static variables, and what one iteration of
  \<open>loop\<close> reads from outside.
\<close>

record sketch =
  context_g :: context_t
  handler_g :: handler
  static_last_update :: "32 word"
  static_next_check :: "32 word"

record loop_input =
  loc_polls :: "gps_fix option list"
  loc_end :: "32 word"
  btn_millis :: "32 word"
  pin_levels :: "int \<Rightarrow> bool"
  fetch_polls :: "(double \<times> double) option list"

text \<open>
  One iteration of \<open>loop\<close>. \<open>update_display\<close> only writes to the display driver and is
  left out.
\<close>

definition loop ::
  "(goal \<Rightarrow> double \<Rightarrow> double \<Rightarrow> int) \<Rightarrow> loop_input \<Rightarrow> sketch \<Rightarrow> fault + sketch" where
  "loop haversine inp g =
     (case update_loc haversine (loc_polls inp) (loc_end inp) (context_g g, static_last_update g) of
        Inl e \<Rightarrow> Inl e
      | Inr (ct1, last_update') \<Rightarrow>
          (case update_buttons (btn_millis inp) (pin_levels inp) (ct1, static_next_check g) of
             (ct2, next_check') \<Rightarrow>
               (case handle (handler_g g) (fetch_polls inp) ct2 of
                  Inl e \<Rightarrow> Inl e
                | Inr (ct3, h) \<Rightarrow>
                    Inr \<lparr> context_g = ct3, handler_g = h, static_last_update = last_update',
                          static_next_check = next_check' \<rparr>)))"

text \<open>The sketch after \<open>setup\<close>; \<open>t0\<close> is the clock at the first call of \<open>update_loc\<close>.\<close>

definition setup_sketch :: "32 word \<Rightarrow> sketch" where
  "setup_sketch t0 = \<lparr> context_g = init_context ct_g, handler_g = MAIN,
                     static_last_update = t0, static_next_check = next_check_init \<rparr>"

fun run :: "(goal \<Rightarrow> double \<Rightarrow> double \<Rightarrow> int) \<Rightarrow> loop_input list \<Rightarrow> sketch \<Rightarrow> fault + sketch" where
  "run haversine [] g = Inr g"
| "run haversine (inp # inps) g =
     (case loop haversine inp g of Inl e \<Rightarrow> Inl e | Inr g' \<Rightarrow> run haversine inps g')"

text \<open>
  What holds of the sketch after every iteration of \<open>loop\<close>: the arrays keep their
  lengths, the symbols stay small, the cursor stays in the display, the current goal is
  the first one, and goals have been fetched (the final goal index is 0) once a goal
  counts as fetched or reached or the state is past MAIN.
\<close>

definition context_inv :: "context_t \<Rightarrow> bool" where
  "context_inv ct =
     (length (display_value ct) = 4 \<and> length (goals ct) = 10 \<and> length (btn ct) = 3 \<and>
      list_all (\<lambda>v. - 128 \<le> v \<and> v \<le> 255) (display_value ct) \<and>
      0 \<le> input_pos ct \<and> input_pos ct \<le> 3 \<and>
      current_goal ct = 0 \<and>
      (fetched (st ct) \<or> reached (st ct) \<longrightarrow> final_goal ct = 0))"

definition past_fetch :: "handler \<Rightarrow> bool" where
  "past_fetch h = (h = SUBGOAL \<or> h = NEXT_GOAL \<or> h = COMPLETE)"

definition sketch_inv :: "sketch \<Rightarrow> bool" where
  "sketch_inv g =
     (context_inv (context_g g) \<and>
      (past_fetch (handler_g g) \<longrightarrow> final_goal (context_g g) = 0))"

text \<open>The context after \<open>setup\<close>, and after a first successful run of \<open>fetch_handler\<close>.\<close>

definition ct_setup :: context_t where
  "ct_setup = init_context ct_g"

definition ct_fetched :: context_t where
  "ct_fetched = fst (fetch_handler [None, Some (0, 0)] ct_setup)"

text \<open>
  A context in SUBGOAL: the goal is reached, the player has entered 0, 1, 2, 2 and the
  cursor is on the last position.
\<close>

definition ct_subgoal :: context_t where
  "ct_subgoal =
     ct_fetched\<lparr> input_pos := 3, display_value := [0, 1, 2, 2], distance := 7,
                 st := (st ct_fetched)\<lparr> satcon := True, reached := True \<rparr> \<rparr>"

text \<open>
  Three calls of \<open>update_buttons\<close> shortly before the millisecond counter wraps around
  (50 ms before \<open>2^32\<close>): the reset button is read pressed, 10 ms later released and
  another 10 ms later pressed again.
\<close>

definition wrap_poll1 :: "context_t \<times> 32 word" where
  "wrap_poll1 = update_buttons 4294967246 (\<lambda>p. p \<noteq> RESET) (ct_setup, next_check_init)"

definition wrap_poll2 :: "context_t \<times> 32 word" where
  "wrap_poll2 = update_buttons 4294967256 (\<lambda>p. True) wrap_poll1"

definition wrap_poll3 :: "context_t \<times> 32 word" where
  "wrap_poll3 = update_buttons 4294967266 (\<lambda>p. p \<noteq> RESET) wrap_poll2"

section \<open>Distance formatting\<close>

lemma smod_nonneg: "0 \<le> (a::int) \<Longrightarrow> 0 < b \<Longrightarrow> a smod b = a mod b"
  by (cases "a = 0") (simp_all add: signed_modulo_int_def)

lemma sdiv_nonneg: "0 \<le> (a::int) \<Longrightarrow> 0 < b \<Longrightarrow> a sdiv b = a div b"
  by (cases "a = 0") (simp_all add: signed_divide_int_def)

lemma to_int8_digit: "0 \<le> x \<Longrightarrow> x \<le> 9 \<Longrightarrow> to_int8 x = x"
  by (simp add: to_int8_def)

lemma mod_div_digit:
  assumes "0 < l"
  shows "((d::int) mod (l * 10)) div l = (d div l) mod 10"
proof -
  have "d mod (l * 10) = l * (d div l mod 10) + d mod l"
    by (simp add: zmod_zmult2_eq)
  then have "d mod (l * 10) div l = (l * (d div l mod 10) + d mod l) div l"
    by simp
  also have "\<dots> = d div l mod 10"
    using assms by simp
  finally show ?thesis .
qed

lemma digit_extract:
  assumes "0 \<le> d" "0 < l"
  shows "to_int8 ((d smod (l * 10)) sdiv l) = (d div l) mod 10"
proof -
  have a: "d smod (l * 10) = d mod (l * 10)"
    using assms by (simp add: smod_nonneg)
  have b: "0 \<le> d mod (l * 10)"
    using assms by simp
  have c: "(d mod (l * 10)) sdiv l = (d mod (l * 10)) div l"
    using b assms by (simp add: sdiv_nonneg)
  have f: "0 \<le> (d div l) mod 10" "(d div l) mod 10 \<le> 9"
    by simp_all
  show ?thesis
    using a c f assms by (simp add: to_int8_digit mod_div_digit)
qed

text \<open>The four iterations of the loop of \<open>set_distance\<close>, written out.\<close>

lemma set_distance_display:
  "display_value (set_distance ct) =
     (let d = distance ct;
          d0 = to_int8 ((d smod 10000) sdiv 1000);
          d1 = to_int8 ((d smod 1000) sdiv 100);
          d2 = to_int8 ((d smod 100) sdiv 10);
          d3 = to_int8 ((d smod 10) sdiv 1);
          e0 = (d0 > 0); e1 = (e0 \<or> d1 > 0); e2 = (e1 \<or> d2 > 0); e3 = (e2 \<or> d3 > 0)
      in (display_value ct)[0 := (if e0 then d0 else BLANK_C), 1 := (if e1 then d1 else BLANK_C),
            2 := (if e2 then d2 else BLANK_C), 3 := (if e3 then d3 else BLANK_C)])"
  by (simp add: set_distance_def Let_def eval_nat_numeral)

lemma set_distance_frame:
  "set_distance ct = ct\<lparr> display_value := display_value (set_distance ct) \<rparr>"
  by (simp add: set_distance_def Let_def eval_nat_numeral)

lemma set_distance_digits:
  assumes "0 \<le> distance ct"
  shows "display_value (set_distance ct) =
     (let d = distance ct;
          d0 = d div 1000 mod 10; d1 = d div 100 mod 10; d2 = d div 10 mod 10; d3 = d mod 10;
          e0 = (d0 > 0); e1 = (e0 \<or> d1 > 0); e2 = (e1 \<or> d2 > 0); e3 = (e2 \<or> d3 > 0)
      in (display_value ct)[0 := (if e0 then d0 else BLANK_C), 1 := (if e1 then d1 else BLANK_C),
            2 := (if e2 then d2 else BLANK_C), 3 := (if e3 then d3 else BLANK_C)])"
proof -
  have "to_int8 ((distance ct smod 10000) sdiv 1000) = distance ct div 1000 mod 10"
    using digit_extract [OF assms, of 1000] by simp
  moreover have "to_int8 ((distance ct smod 1000) sdiv 100) = distance ct div 100 mod 10"
    using digit_extract [OF assms, of 100] by simp
  moreover have "to_int8 ((distance ct smod 100) sdiv 10) = distance ct div 10 mod 10"
    using digit_extract [OF assms, of 10] by simp
  moreover have "to_int8 ((distance ct smod 10) sdiv 1) = distance ct mod 10"
    using digit_extract [OF assms, of 1] by simp
  ultimately show ?thesis
    unfolding set_distance_display Let_def by (simp only:)
qed

lemma list4_update:
  assumes "length xs = 4"
  shows "xs[0 := a, Suc 0 := b, 2 := c, 3 := d] = [a, b, c, d]"
proof -
  obtain x0 x1 x2 x3 where "xs = [x0, x1, x2, x3]"
    using assms by (auto simp: length_Suc_conv eval_nat_numeral)
  then show ?thesis by simp
qed

lemma all_le_Suc0: "(\<forall>j\<le>Suc 0. P j) = (P 0 \<and> P (Suc 0))"
  by (auto simp: le_Suc_eq)

lemma all_le_2: "(\<forall>j\<le>(2::nat). P j) = (P 0 \<and> P 1 \<and> P 2)"
  by (auto simp: le_Suc_eq eval_nat_numeral)

lemma all_le_3: "(\<forall>j\<le>(3::nat). P j) = (P 0 \<and> P 1 \<and> P 2 \<and> P 3)"
  by (auto simp: le_Suc_eq eval_nat_numeral)

lemma digit_nonzero: "(0 < (x::int) mod 10) = (x mod 10 \<noteq> 0)"
proof -
  have "0 \<le> x mod 10" by simp
  then show ?thesis by (simp add: order_less_le)
qed

lemma set_distance_nth:
  assumes len: "length (display_value ct) = 4" and lo: "0 \<le> distance ct" and i: "i < 4"
  shows "display_value (set_distance ct) ! i =
           (if (\<forall>j\<le>i. distance ct div 10 ^ (3 - j) mod 10 = 0) then BLANK_C
            else distance ct div 10 ^ (3 - i) mod 10)"
proof -
  have "i = 0 \<or> i = 1 \<or> i = 2 \<or> i = 3"
    using i by auto
  then show ?thesis
  proof (elim disjE)
    assume "i = 0"
    then show ?thesis
      using len by (simp add: set_distance_digits [OF lo] Let_def digit_nonzero)
  next
    assume "i = 1"
    then show ?thesis
      using len by (simp add: set_distance_digits [OF lo] Let_def digit_nonzero all_le_Suc0)
  next
    assume "i = 2"
    then show ?thesis
      using len by (simp add: set_distance_digits [OF lo] Let_def digit_nonzero all_le_2)
  next
    assume "i = 3"
    then show ?thesis
      using len by (simp add: set_distance_digits [OF lo] Let_def digit_nonzero all_le_3)
  qed
qed

lemma set_distance_examples:
  assumes len: "length (display_value ct) = 4"
  shows "distance ct = 0 \<Longrightarrow>
           display_value (set_distance ct) = [BLANK_C, BLANK_C, BLANK_C, BLANK_C]"
    and "distance ct = 42 \<Longrightarrow> display_value (set_distance ct) = [BLANK_C, BLANK_C, 4, 2]"
    and "distance ct = 7000 \<Longrightarrow> display_value (set_distance ct) = [7, 0, 0, 0]"
  using len by (simp_all add: set_distance_digits list4_update)

text \<open>
  C1 (amended). For a distance in 0..9999 the symbol at position \<open>i\<close> is blank when all
  decimal digits from the thousands down to position \<open>i\<close> are zero, and is the digit at
  position \<open>i\<close> otherwise: digits before the first non-zero digit are blank, every digit
  from the first non-zero one onward is shown. In particular 0 is rendered as four
  blanks (the units digit of 0 is blank as well), 42 as blank, blank, 4, 2 and 7000
  as 7, 0, 0, 0.
\<close>

theorem set_distance_format:
  assumes "length (display_value ct) = 4"
      and "0 \<le> distance ct" and "distance ct \<le> 9999"
  shows "(\<forall>i<4. display_value (set_distance ct) ! i =
            (if (\<forall>j\<le>i. distance ct div 10 ^ (3 - j) mod 10 = 0) then BLANK_C
             else distance ct div 10 ^ (3 - i) mod 10)) \<and>
         length (display_value (set_distance ct)) = 4 \<and>
         (distance ct = 0 \<longrightarrow>
            display_value (set_distance ct) = [BLANK_C, BLANK_C, BLANK_C, BLANK_C]) \<and>
         (distance ct = 42 \<longrightarrow> display_value (set_distance ct) = [BLANK_C, BLANK_C, 4, 2]) \<and>
         (distance ct = 7000 \<longrightarrow> display_value (set_distance ct) = [7, 0, 0, 0])"
proof (intro conjI allI impI)
  fix i :: nat
  assume "i < 4"
  then show "display_value (set_distance ct) ! i =
            (if (\<forall>j\<le>i. distance ct div 10 ^ (3 - j) mod 10 = 0) then BLANK_C
             else distance ct div 10 ^ (3 - i) mod 10)"
    using assms by (simp only: set_distance_nth)
next
  show "length (display_value (set_distance ct)) = 4"
    using assms(1) by (simp add: set_distance_display Let_def)
qed (use assms(1) in \<open>simp_all only: set_distance_examples\<close>)

theorem set_distance_format_witness:
  "length (display_value (ct_g\<lparr> distance := 42 \<rparr>)) = 4 \<and>
   0 \<le> distance (ct_g\<lparr> distance := 42 \<rparr>) \<and>
   distance (ct_g\<lparr> distance := 42 \<rparr>) \<le> 9999 \<and>
   display_value (set_distance (ct_g\<lparr> distance := 42 \<rparr>)) ! 1 = BLANK_C \<and>
   display_value (set_distance (ct_g\<lparr> distance := 42 \<rparr>)) ! 2 = 4 \<and>
   display_value (set_distance (ct_g\<lparr> distance := 42 \<rparr>)) = [BLANK_C, BLANK_C, 4, 2]"
  using set_distance_format [of "ct_g\<lparr> distance := 42 \<rparr>"]
  by (simp add: ct_g_def)

theorem set_distance_zero_counterexample:
  "display_value (set_distance (ct_g\<lparr> distance := 0 \<rparr>)) \<noteq> [BLANK_C, BLANK_C, BLANK_C, 0]"
  by (simp add: set_distance_display ct_g_def to_int8_def BLANK_C_def)

section \<open>Concrete contexts\<close>

lemma ct_setup_eq:
  "ct_setup =
     \<lparr> input_pos = 0, display_value = [- 1, - 1, - 1, - 1], distance = - 1, current_goal = 0,
       final_goal = - 1, goals = replicate 10 zero_goal,
       st = \<lparr> satcon = False, reached = False, passwd = False, fetched = False,
              completed = False, reset = False, pos = False, count = False \<rparr>,
       btn = [\<lparr> was_down = False, event = ST_RESET, pin = 0 \<rparr>,
              \<lparr> was_down = False, event = ST_POS, pin = 1 \<rparr>,
              \<lparr> was_down = False, event = ST_COUNT, pin = 4 \<rparr>] \<rparr>"
  by (simp add: ct_setup_def init_context_def ct_g_def RESET_def POS_def COUNT_def
      eval_nat_numeral)

lemma ct_fetched_eq:
  "ct_fetched =
     \<lparr> input_pos = 0, display_value = [- 1, - 1, - 1, - 1], distance = - 1, current_goal = 0,
       final_goal = 0,
       goals = \<lparr> lt = 0, ln = 0, passwd = [0, 1, 2, 3] \<rparr> # replicate 9 zero_goal,
       st = \<lparr> satcon = False, reached = False, passwd = False, fetched = True,
              completed = False, reset = False, pos = False, count = False \<rparr>,
       btn = [\<lparr> was_down = False, event = ST_RESET, pin = 0 \<rparr>,
              \<lparr> was_down = False, event = ST_POS, pin = 1 \<rparr>,
              \<lparr> was_down = False, event = ST_COUNT, pin = 4 \<rparr>] \<rparr>"
  by (simp add: ct_fetched_def fetch_handler_def ct_setup_eq zero_goal_def eval_nat_numeral)

lemma valid_ct_setup: "valid_context ct_setup"
  by (simp add: ct_setup_eq valid_context_def is_int_def INT_MIN_def INT_MAX_def
      zero_goal_def eval_nat_numeral)

lemma valid_ct_fetched: "valid_context ct_fetched"
  by (simp add: ct_fetched_eq valid_context_def is_int_def INT_MIN_def INT_MAX_def
      zero_goal_def eval_nat_numeral)

section \<open>The MAIN state\<close>

lemma main_handler_eq:
  assumes len: "length (display_value ct) = 4"
  shows "main_handler ct =
           (let shown = (if \<not> fetched (st ct) then [DASH_C, DASH_C, DASH_C, DASH_C]
                         else display_value (set_distance ct))
            in if reset (st ct) then (ct\<lparr> display_value := shown \<rparr>, FETCH)
               else if reached (st ct) then
                 (ct\<lparr> input_pos := 0,
                      display_value := [DASH_C, BLANK_C, BLANK_C, BLANK_C] \<rparr>, SUBGOAL)
               else if \<not> satcon (st ct) then (ct\<lparr> display_value := shown \<rparr>, SATCON)
               else (ct\<lparr> display_value := shown \<rparr>, MAIN))"
proof -
  have len': "length (display_value (set_distance ct)) = 4"
    using len by (simp add: set_distance_display Let_def)
  show ?thesis
  proof (cases "fetched (st ct)")
    case False
    then show ?thesis
      using len by (simp add: main_handler_def Let_def list4_update)
  next
    case True
    have "set_distance ct = ct\<lparr> display_value := display_value (set_distance ct) \<rparr>"
      by (rule set_distance_frame)
    then obtain dv where sd: "set_distance ct = ct\<lparr> display_value := dv \<rparr>" ..
    then have "length dv = 4" using len' by simp
    then show ?thesis
      using True sd by (simp add: main_handler_def Let_def list4_update)
  qed
qed

text \<open>
  C2. The display is first set to four dashes when no goals are fetched and to the
  formatted distance otherwise. Then: a reset leads to FETCH; else a reached location
  sets the cursor to 0 and the display to a dash and three blanks and leads to SUBGOAL;
  else a lost satellite connection leads to SATCON; otherwise the state stays MAIN.
  Nothing else of the context changes.
\<close>

theorem main_handler_transition:
  assumes "valid_context ct"
  shows "main_handler ct =
           (let shown = (if \<not> fetched (st ct) then [DASH_C, DASH_C, DASH_C, DASH_C]
                         else display_value (set_distance ct))
            in if reset (st ct) then (ct\<lparr> display_value := shown \<rparr>, FETCH)
               else if reached (st ct) then
                 (ct\<lparr> input_pos := 0,
                      display_value := [DASH_C, BLANK_C, BLANK_C, BLANK_C] \<rparr>, SUBGOAL)
               else if \<not> satcon (st ct) then (ct\<lparr> display_value := shown \<rparr>, SATCON)
               else (ct\<lparr> display_value := shown \<rparr>, MAIN))"
proof -
  have "length (display_value ct) = 4"
    using assms by (simp add: valid_context_def)
  then show ?thesis
    by (rule main_handler_eq)
qed

theorem main_handler_transition_witness:
  "valid_context (ct_fetched\<lparr> distance := 15, st := (st ct_fetched)\<lparr> reached := True \<rparr> \<rparr>) \<and>
   main_handler (ct_fetched\<lparr> distance := 15, st := (st ct_fetched)\<lparr> reached := True \<rparr> \<rparr>) =
     (ct_fetched\<lparr> distance := 15, st := (st ct_fetched)\<lparr> reached := True \<rparr>,
        display_value := [DASH_C, BLANK_C, BLANK_C, BLANK_C] \<rparr>, SUBGOAL)"
proof -
  have v: "valid_context (ct_fetched\<lparr> distance := 15, st := (st ct_fetched)\<lparr> reached := True \<rparr> \<rparr>)"
    using valid_ct_fetched by (simp add: valid_context_def is_int_def INT_MIN_def INT_MAX_def)
  show ?thesis
    using v main_handler_transition [OF v] by (simp add: ct_fetched_eq)
qed

section \<open>The SUBGOAL state\<close>

lemma all_less_4: "(\<forall>i<(4::nat). P i) = (P 0 \<and> P 1 \<and> P 2 \<and> P 3)"
proof -
  have "\<And>i::nat. (i < 4) = (i = 0 \<or> i = 1 \<or> i = 2 \<or> i = 3)"
    by auto
  then show ?thesis
    by auto
qed

lemma count_matches_4:
  "(count_matches dv pw = 4) = (\<forall>i<4. dv ! i = uint (pw ! i))"
proof -
  have upt4: "[0..<4] = [0, 1, 2, 3]"
    by (simp add: upt_rec)
  show ?thesis
    unfolding all_less_4 count_matches_def upt4 by simp
qed

lemma smod_4_cursor:
  assumes "0 \<le> (p::int)" "p < 4"
  shows "(p + 1) smod 4 = (p + 1) mod 4"
  using assms by (simp add: smod_nonneg)

lemma subgoal_pos_eq:
  assumes "0 \<le> input_pos ct" "input_pos ct < 4"
  shows "subgoal_pos ct =
           Inr (if pos (st ct) then
                  ct\<lparr> input_pos := (input_pos ct + 1) mod 4,
                      display_value :=
                        (if display_value ct ! nat (input_pos ct) = DASH_C
                         then (display_value ct)[nat (input_pos ct) := BLANK_C]
                         else display_value ct)[nat ((input_pos ct + 1) mod 4) := DASH_C] \<rparr>
                else ct)"
  using assms by (simp add: subgoal_pos_def Let_def smod_4_cursor)

lemma subgoal_count_eq:
  assumes "0 \<le> input_pos ct" "input_pos ct < 4"
      and "display_value ct ! nat (input_pos ct) < INT_MAX"
  shows "subgoal_count ct =
           Inr (if count (st ct) then
                  ct\<lparr> display_value := (display_value ct)[nat (input_pos ct) :=
                         (if display_value ct ! nat (input_pos ct) = DASH_C then 0
                          else (display_value ct ! nat (input_pos ct) + 1) smod 16)] \<rparr>
                else ct)"
  using assms by (simp add: subgoal_count_def Let_def)

lemma cursor_symbol_bound:
  assumes "length (display_value ct) = 4" "0 \<le> input_pos ct" "input_pos ct < 4"
      and "list_all (\<lambda>v. v < INT_MAX) (display_value ct)"
  shows "display_value ct ! nat (input_pos ct) < INT_MAX"
proof -
  have "nat (input_pos ct) < length (display_value ct)"
    using assms(1-3) by simp
  then show ?thesis
    using assms(4) by (simp add: list_all_length)
qed

text \<open>The two edit blocks together, on a context that keeps them inside the array.\<close>

lemma subgoal_edit:
  assumes len: "length (display_value ct) = 4"
      and cur: "0 \<le> input_pos ct" "input_pos ct < 4"
      and old: "display_value ct ! nat (input_pos ct) < INT_MAX"
  shows "\<exists>ct1 ct2. subgoal_pos ct = Inr ct1 \<and> subgoal_count ct1 = Inr ct2 \<and>
           st ct2 = st ct \<and> goals ct2 = goals ct \<and> current_goal ct2 = current_goal ct \<and>
           final_goal ct2 = final_goal ct \<and> distance ct2 = distance ct \<and> btn ct2 = btn ct \<and>
           length (display_value ct2) = 4 \<and>
           input_pos ct2 = (if pos (st ct) then (input_pos ct + 1) mod 4 else input_pos ct) \<and>
           (\<not> pos (st ct) \<longrightarrow> ct1 = ct) \<and>
           (pos (st ct) \<longrightarrow> display_value ct1 ! nat (input_pos ct1) = DASH_C) \<and>
           (count (st ct) \<longrightarrow>
              display_value ct2 = (display_value ct1)[nat (input_pos ct1) :=
                 (if display_value ct1 ! nat (input_pos ct1) = DASH_C then 0
                  else (display_value ct1 ! nat (input_pos ct1) + 1) smod 16)]) \<and>
           (\<not> count (st ct) \<longrightarrow> ct2 = ct1)"
proof -
  obtain ct1 where ct1: "subgoal_pos ct = Inr ct1"
      and ct1_def: "ct1 = (if pos (st ct) then
                  ct\<lparr> input_pos := (input_pos ct + 1) mod 4,
                      display_value :=
                        (if display_value ct ! nat (input_pos ct) = DASH_C
                         then (display_value ct)[nat (input_pos ct) := BLANK_C]
                         else display_value ct)[nat ((input_pos ct + 1) mod 4) := DASH_C] \<rparr>
                else ct)"
    using subgoal_pos_eq [OF cur] by simp
  have cur1: "0 \<le> input_pos ct1" "input_pos ct1 < 4"
    using cur by (simp_all add: ct1_def)
  have frame1: "st ct1 = st ct" "goals ct1 = goals ct" "current_goal ct1 = current_goal ct"
      "final_goal ct1 = final_goal ct" "distance ct1 = distance ct" "btn ct1 = btn ct"
      "length (display_value ct1) = 4"
    using len by (simp_all add: ct1_def)
  have idx: "nat ((input_pos ct + 1) mod 4) < 4"
    using cur by simp
  have dash: "pos (st ct) \<Longrightarrow> display_value ct1 ! nat (input_pos ct1) = DASH_C"
    using len idx by (simp add: ct1_def)
  have bnd1: "display_value ct1 ! nat (input_pos ct1) < INT_MAX"
  proof (cases "pos (st ct)")
    case True
    then show ?thesis using dash by (simp add: DASH_C_def INT_MAX_def)
  next
    case False
    then show ?thesis using old by (simp add: ct1_def)
  qed
  obtain ct2 where ct2: "subgoal_count ct1 = Inr ct2"
      and ct2_def: "ct2 = (if count (st ct1) then
                  ct1\<lparr> display_value := (display_value ct1)[nat (input_pos ct1) :=
                         (if display_value ct1 ! nat (input_pos ct1) = DASH_C then 0
                          else (display_value ct1 ! nat (input_pos ct1) + 1) smod 16)] \<rparr>
                else ct1)"
    using subgoal_count_eq [OF cur1 bnd1] by simp
  have frame2: "st ct2 = st ct" "goals ct2 = goals ct" "current_goal ct2 = current_goal ct"
      "final_goal ct2 = final_goal ct" "distance ct2 = distance ct" "btn ct2 = btn ct"
      "length (display_value ct2) = 4" "input_pos ct2 = input_pos ct1"
    using frame1 by (simp_all add: ct2_def)
  have pos1: "input_pos ct1 = (if pos (st ct) then (input_pos ct + 1) mod 4 else input_pos ct)"
    by (simp add: ct1_def)
  have "\<not> pos (st ct) \<longrightarrow> ct1 = ct"
    by (simp add: ct1_def)
  moreover have "count (st ct) \<longrightarrow>
              display_value ct2 = (display_value ct1)[nat (input_pos ct1) :=
                 (if display_value ct1 ! nat (input_pos ct1) = DASH_C then 0
                  else (display_value ct1 ! nat (input_pos ct1) + 1) smod 16)]"
    using frame1(1) by (simp add: ct2_def)
  moreover have "\<not> count (st ct) \<longrightarrow> ct2 = ct1"
    using frame1(1) by (simp add: ct2_def)
  ultimately show ?thesis
    using ct1 ct2 frame2 pos1 dash by (intro exI [of _ ct1] exI [of _ ct2]) simp
qed

text \<open>What \<open>subgoal_handler\<close> returns after the two edit blocks.\<close>

lemma subgoal_handler_after_edit:
  assumes "subgoal_pos ct = Inr ct1" "subgoal_count ct1 = Inr ct2"
      and "0 \<le> current_goal ct2" "current_goal ct2 < 10"
  shows "subgoal_handler ct =
           Inr (ct2\<lparr> st := (st ct2)\<lparr> passwd :=
                    (\<forall>i<4. display_value ct2 ! i =
                        uint (goal.passwd (goals ct2 ! nat (current_goal ct2)) ! i)) \<rparr> \<rparr>,
                if reset (st ct2) then FETCH
                else if (\<forall>i<4. display_value ct2 ! i =
                        uint (goal.passwd (goals ct2 ! nat (current_goal ct2)) ! i)) then NEXT_GOAL
                else if \<not> satcon (st ct2) then SATCON
                else if reached (st ct2) then SUBGOAL
                else MAIN)"
  using assms by (auto simp: subgoal_handler_def Let_def count_matches_4)

text \<open>
  C3. On a context whose cursor and current-goal index lie inside their arrays (and whose
  symbols can be incremented without overflow) \<open>subgoal_handler\<close> returns; the flag
  \<open>passwd\<close> is then true exactly when the four displayed symbols equal the four digits of
  the current goal's password, and the next state is FETCH on a reset, else NEXT_GOAL
  when the password is correct, else SATCON without satellite connection, else SUBGOAL
  while the location is reached, else MAIN.
\<close>

theorem subgoal_handler_transition:
  assumes "valid_context ct"
      and "0 \<le> input_pos ct" "input_pos ct < 4"
      and "0 \<le> current_goal ct" "current_goal ct < 10"
      and "list_all (\<lambda>v. v < INT_MAX) (display_value ct)"
  shows "\<exists>ct' next. subgoal_handler ct = Inr (ct', next) \<and>
           state.passwd (st ct') =
             (\<forall>i<4. display_value ct' ! i =
                uint (goal.passwd (goals ct' ! nat (current_goal ct')) ! i)) \<and>
           next = (if reset (st ct) then FETCH
                   else if state.passwd (st ct') then NEXT_GOAL
                   else if \<not> satcon (st ct) then SATCON
                   else if reached (st ct) then SUBGOAL
                   else MAIN) \<and>
           goals ct' = goals ct \<and> current_goal ct' = current_goal ct \<and>
           reset (st ct') = reset (st ct) \<and> satcon (st ct') = satcon (st ct) \<and>
           reached (st ct') = reached (st ct)"
proof -
  have len: "length (display_value ct) = 4"
    using assms(1) by (simp add: valid_context_def)
  have old: "display_value ct ! nat (input_pos ct) < INT_MAX"
    using cursor_symbol_bound [OF len assms(2,3,6)] .
  obtain ct1 ct2 where e: "subgoal_pos ct = Inr ct1" "subgoal_count ct1 = Inr ct2"
      and f: "st ct2 = st ct" "goals ct2 = goals ct" "current_goal ct2 = current_goal ct"
    using subgoal_edit [OF len assms(2,3) old] by blast
  have g: "0 \<le> current_goal ct2" "current_goal ct2 < 10"
    using assms(4,5) f by simp_all
  show ?thesis
    unfolding subgoal_handler_after_edit [OF e g] using f by auto
qed


lemma ct_subgoal_eq:
  "ct_subgoal =
     \<lparr> input_pos = 3, display_value = [0, 1, 2, 2], distance = 7, current_goal = 0,
       final_goal = 0,
       goals = \<lparr> lt = 0, ln = 0, passwd = [0, 1, 2, 3] \<rparr> # replicate 9 zero_goal,
       st = \<lparr> satcon = True, reached = True, passwd = False, fetched = True,
              completed = False, reset = False, pos = False, count = False \<rparr>,
       btn = [\<lparr> was_down = False, event = ST_RESET, pin = 0 \<rparr>,
              \<lparr> was_down = False, event = ST_POS, pin = 1 \<rparr>,
              \<lparr> was_down = False, event = ST_COUNT, pin = 4 \<rparr>] \<rparr>"
  by (simp add: ct_subgoal_def ct_fetched_eq)

lemma valid_context_st [simp]: "valid_context (ct\<lparr> st := s \<rparr>) = valid_context ct"
  by (simp add: valid_context_def)

lemma valid_ct_subgoal: "valid_context ct_subgoal"
  by (simp add: ct_subgoal_eq valid_context_def is_int_def INT_MIN_def INT_MAX_def
      zero_goal_def eval_nat_numeral)

theorem subgoal_handler_transition_witness:
  "valid_context (ct_subgoal\<lparr> st := (st ct_subgoal)\<lparr> count := True \<rparr> \<rparr>) \<and>
   input_pos (ct_subgoal\<lparr> st := (st ct_subgoal)\<lparr> count := True \<rparr> \<rparr>) = 3 \<and>
   current_goal (ct_subgoal\<lparr> st := (st ct_subgoal)\<lparr> count := True \<rparr> \<rparr>) = 0 \<and>
   list_all (\<lambda>v. v < INT_MAX)
     (display_value (ct_subgoal\<lparr> st := (st ct_subgoal)\<lparr> count := True \<rparr> \<rparr>)) \<and>
   subgoal_handler (ct_subgoal\<lparr> st := (st ct_subgoal)\<lparr> count := True \<rparr> \<rparr>) =
     Inr (ct_subgoal\<lparr> display_value := [0, 1, 2, 3],
            st := (st ct_subgoal)\<lparr> count := True, passwd := True \<rparr> \<rparr>, NEXT_GOAL)"
proof -
  let ?c = "ct_subgoal\<lparr> st := (st ct_subgoal)\<lparr> count := True \<rparr> \<rparr>"
  have v: "valid_context ?c"
    using valid_ct_subgoal by simp
  have b: "list_all (\<lambda>v. v < INT_MAX) (display_value ?c)"
    by (simp add: ct_subgoal_eq INT_MAX_def)
  have "\<exists>ct' next. subgoal_handler ?c = Inr (ct', next) \<and>
           state.passwd (st ct') =
             (\<forall>i<4. display_value ct' ! i =
                uint (goal.passwd (goals ct' ! nat (current_goal ct')) ! i)) \<and>
           next = (if reset (st ?c) then FETCH
                   else if state.passwd (st ct') then NEXT_GOAL
                   else if \<not> satcon (st ?c) then SATCON
                   else if reached (st ?c) then SUBGOAL
                   else MAIN) \<and>
           goals ct' = goals ?c \<and> current_goal ct' = current_goal ?c \<and>
           reset (st ct') = reset (st ?c) \<and> satcon (st ct') = satcon (st ?c) \<and>
           reached (st ct') = reached (st ?c)"
    by (rule subgoal_handler_transition [OF v _ _ _ _ b]) (simp_all add: ct_subgoal_eq)
  moreover have "subgoal_handler ?c =
     Inr (ct_subgoal\<lparr> display_value := [0, 1, 2, 3],
            st := (st ct_subgoal)\<lparr> count := True, passwd := True \<rparr> \<rparr>, NEXT_GOAL)"
    by (simp add: subgoal_handler_def subgoal_pos_def subgoal_count_def Let_def ct_subgoal_eq
        count_matches_4 all_less_4 DASH_C_def INT_MAX_def signed_modulo_int_def)
  ultimately show ?thesis
    using v b by (simp add: ct_subgoal_eq)
qed

section \<open>The NEXT_GOAL state\<close>

lemma next_goal_handler_eq:
  assumes "length (display_value ct) = 4" "current_goal ct < INT_MAX"
  shows "next_goal_handler ct =
           Inr (if current_goal ct = final_goal ct then
                  (ct\<lparr> display_value := [DASH_C, DASH_C, DASH_C, DASH_C],
                       st := (st ct)\<lparr> completed := True \<rparr> \<rparr>, COMPLETE)
                else
                  (ct\<lparr> current_goal := current_goal ct + 1,
                       st := (st ct)\<lparr> completed := False \<rparr> \<rparr>, MAIN))"
  using assms by (simp add: next_goal_handler_def Let_def list4_update)

text \<open>
  C4 (amended). \<open>next_goal_handler\<close> sets \<open>completed\<close> to the comparison of the current
  with the final goal index; when they are equal it shows four dashes and goes to
  COMPLETE, otherwise it adds one to the current goal index and goes to MAIN. SUBGOAL
  leads to NEXT_GOAL whenever the four displayed symbols equal the current goal's
  password and no reset is pending.
\<close>

theorem next_goal_handler_transition:
  assumes "valid_context ct" and "current_goal ct < INT_MAX"
      and "valid_context cs"
      and "0 \<le> input_pos cs" "input_pos cs < 4"
      and "0 \<le> current_goal cs" "current_goal cs < 10"
      and "list_all (\<lambda>v. v < INT_MAX) (display_value cs)"
  shows "next_goal_handler ct =
           Inr (if current_goal ct = final_goal ct then
                  (ct\<lparr> display_value := [DASH_C, DASH_C, DASH_C, DASH_C],
                       st := (st ct)\<lparr> completed := True \<rparr> \<rparr>, COMPLETE)
                else
                  (ct\<lparr> current_goal := current_goal ct + 1,
                       st := (st ct)\<lparr> completed := False \<rparr> \<rparr>, MAIN)) \<and>
         (\<exists>cs' next. subgoal_handler cs = Inr (cs', next) \<and>
            ((\<forall>i<4. display_value cs' ! i =
                uint (goal.passwd (goals cs' ! nat (current_goal cs')) ! i)) \<and>
             \<not> reset (st cs) \<longrightarrow> next = NEXT_GOAL))"
proof
  have "length (display_value ct) = 4"
    using assms(1) by (simp add: valid_context_def)
  then show "next_goal_handler ct =
           Inr (if current_goal ct = final_goal ct then
                  (ct\<lparr> display_value := [DASH_C, DASH_C, DASH_C, DASH_C],
                       st := (st ct)\<lparr> completed := True \<rparr> \<rparr>, COMPLETE)
                else
                  (ct\<lparr> current_goal := current_goal ct + 1,
                       st := (st ct)\<lparr> completed := False \<rparr> \<rparr>, MAIN))"
    using assms(2) by (rule next_goal_handler_eq)
next
  have len: "length (display_value cs) = 4"
    using assms(3) by (simp add: valid_context_def)
  have old: "display_value cs ! nat (input_pos cs) < INT_MAX"
    using cursor_symbol_bound [OF len assms(4,5,8)] .
  obtain ct1 ct2 where e: "subgoal_pos cs = Inr ct1" "subgoal_count ct1 = Inr ct2"
      and f: "st ct2 = st cs" "goals ct2 = goals cs" "current_goal ct2 = current_goal cs"
    using subgoal_edit [OF len assms(4,5) old] by blast
  have g: "0 \<le> current_goal ct2" "current_goal ct2 < 10"
    using assms(6,7) f by simp_all
  show "\<exists>cs' next. subgoal_handler cs = Inr (cs', next) \<and>
            ((\<forall>i<4. display_value cs' ! i =
                uint (goal.passwd (goals cs' ! nat (current_goal cs')) ! i)) \<and>
             \<not> reset (st cs) \<longrightarrow> next = NEXT_GOAL)"
    unfolding subgoal_handler_after_edit [OF e g] using f by auto
qed

theorem next_goal_handler_transition_witness:
  "valid_context ct_subgoal \<and> current_goal ct_subgoal < INT_MAX \<and>
   next_goal_handler ct_subgoal =
     Inr (ct_subgoal\<lparr> display_value := [DASH_C, DASH_C, DASH_C, DASH_C],
                      st := (st ct_subgoal)\<lparr> completed := True \<rparr> \<rparr>, COMPLETE) \<and>
   next_goal_handler (ct_subgoal\<lparr> final_goal := 2 \<rparr>) =
     Inr (ct_subgoal\<lparr> final_goal := 2, current_goal := 1 \<rparr>, MAIN) \<and>
   subgoal_handler (ct_subgoal\<lparr> st := (st ct_subgoal)\<lparr> count := True \<rparr> \<rparr>) =
     Inr (ct_subgoal\<lparr> display_value := [0, 1, 2, 3],
            st := (st ct_subgoal)\<lparr> count := True, passwd := True \<rparr> \<rparr>, NEXT_GOAL)"
proof -
  let ?c = "ct_subgoal\<lparr> final_goal := 2 \<rparr>"
  let ?s = "ct_subgoal\<lparr> st := (st ct_subgoal)\<lparr> count := True \<rparr> \<rparr>"
  have v: "valid_context ct_subgoal"
    by (rule valid_ct_subgoal)
  have v2: "valid_context ?c"
    using v by (simp add: valid_context_def is_int_def INT_MIN_def INT_MAX_def)
  have vs: "valid_context ?s"
    using v by simp
  have m: "current_goal ct_subgoal < INT_MAX" "current_goal ?c < INT_MAX"
    by (simp_all add: ct_subgoal_eq INT_MAX_def)
  have b: "list_all (\<lambda>v. v < INT_MAX) (display_value ?s)"
    by (simp add: ct_subgoal_eq INT_MAX_def)
  have i: "0 \<le> input_pos ?s" "input_pos ?s < 4" "0 \<le> current_goal ?s" "current_goal ?s < 10"
    by (simp_all add: ct_subgoal_eq)
  have s: "subgoal_handler ?s =
     Inr (ct_subgoal\<lparr> display_value := [0, 1, 2, 3],
            st := (st ct_subgoal)\<lparr> count := True, passwd := True \<rparr> \<rparr>, NEXT_GOAL)"
    by (simp add: subgoal_handler_def subgoal_pos_def subgoal_count_def Let_def ct_subgoal_eq
        count_matches_4 all_less_4 DASH_C_def INT_MAX_def signed_modulo_int_def)
  show ?thesis
    using next_goal_handler_transition [OF v m(1) vs i b]
      next_goal_handler_transition [OF v2 m(2) vs i b] v m(1) s
    by (simp add: ct_subgoal_eq)
qed

theorem subgoal_reset_counterexample:
  "subgoal_handler (ct_subgoal\<lparr> st := (st ct_subgoal)\<lparr> count := True, reset := True \<rparr> \<rparr>) =
     Inr (ct_subgoal\<lparr> display_value := [0, 1, 2, 3],
            st := (st ct_subgoal)\<lparr> count := True, reset := True, passwd := True \<rparr> \<rparr>, FETCH) \<and>
   map uint (goal.passwd (goals ct_subgoal ! nat (current_goal ct_subgoal))) = [0, 1, 2, 3]"
  by (simp add: subgoal_handler_def subgoal_pos_def subgoal_count_def Let_def ct_subgoal_eq
      count_matches_4 all_less_4 DASH_C_def INT_MAX_def signed_modulo_int_def)

section \<open>Incrementing a blank position\<close>

lemma blank_increment: "(BLANK_C + 1) smod 16 = 0"
  by (simp add: BLANK_C_def signed_modulo_int_def)

text \<open>
  C9. When the count event fires in SUBGOAL and the cursor position holds the blank
  symbol, the handler returns and the symbol at the cursor is 0 afterwards, because
  \<open>(0xFF + 1) % 0x10 = 0\<close>. Without a cursor move in the same iteration only that
  position changes, and the display is the one obtained from a dash at the cursor.
\<close>

theorem subgoal_count_blank:
  assumes "valid_context ct"
      and "0 \<le> input_pos ct" "input_pos ct < 4"
      and "0 \<le> current_goal ct" "current_goal ct < 10"
      and "count (st ct)"
      and "display_value ct ! nat (input_pos ct) = BLANK_C"
  shows "\<exists>ct' next. subgoal_handler ct = Inr (ct', next) \<and>
           display_value ct' ! nat (input_pos ct') = 0 \<and>
           (BLANK_C + 1) smod 16 = 0 \<and>
           (\<not> pos (st ct) \<longrightarrow>
              input_pos ct' = input_pos ct \<and>
              display_value ct' = (display_value ct)[nat (input_pos ct) := 0] \<and>
              (\<exists>ct'' next'.
                 subgoal_handler
                   (ct\<lparr> display_value := (display_value ct)[nat (input_pos ct) := DASH_C] \<rparr>) =
                   Inr (ct'', next') \<and>
                 display_value ct'' = display_value ct'))"
proof -
  let ?p = "nat (input_pos ct)"
  let ?cd = "ct\<lparr> display_value := (display_value ct)[?p := DASH_C] \<rparr>"
  have len: "length (display_value ct) = 4"
    using assms(1) by (simp add: valid_context_def)
  have p: "?p < length (display_value ct)"
    using len assms(2,3) by simp
  have old: "display_value ct ! ?p < INT_MAX"
    using assms(7) by (simp add: BLANK_C_def INT_MAX_def)
  obtain ct1 ct2 where e: "subgoal_pos ct = Inr ct1" "subgoal_count ct1 = Inr ct2"
      and f: "st ct2 = st ct" "goals ct2 = goals ct" "current_goal ct2 = current_goal ct"
        "length (display_value ct2) = 4"
        "input_pos ct2 = (if pos (st ct) then (input_pos ct + 1) mod 4 else input_pos ct)"
      and np: "\<not> pos (st ct) \<longrightarrow> ct1 = ct"
      and dash: "pos (st ct) \<longrightarrow> display_value ct1 ! nat (input_pos ct1) = DASH_C"
      and cnt: "count (st ct) \<longrightarrow>
              display_value ct2 = (display_value ct1)[nat (input_pos ct1) :=
                 (if display_value ct1 ! nat (input_pos ct1) = DASH_C then 0
                  else (display_value ct1 ! nat (input_pos ct1) + 1) smod 16)]"
      and nc: "\<not> count (st ct) \<longrightarrow> ct2 = ct1"
    using subgoal_edit [OF len assms(2,3) old] by blast
  have g: "0 \<le> current_goal ct2" "current_goal ct2 < 10"
    using assms(4,5) f by simp_all
  have len1: "length (display_value ct1) = 4"
    using cnt assms(6) f(4) by simp
  have pos1: "input_pos ct1 = input_pos ct2"
    using e(2) assms(2,3) by (auto simp: subgoal_count_def Let_def split: if_splits)
  have c2: "0 \<le> input_pos ct2" "input_pos ct2 < 4"
    using f(5) assms(2,3) by (simp_all split: if_splits)
  have zero: "display_value ct2 ! nat (input_pos ct2) = 0"
  proof (cases "pos (st ct)")
    case True
    then show ?thesis
      using cnt assms(6) dash pos1 len1 c2 by simp
  next
    case False
    then have "ct1 = ct" using np by simp
    then show ?thesis
      using cnt assms(6,7) pos1 len c2 by (simp add: blank_increment BLANK_C_def DASH_C_def)
  qed
  have same: "\<not> pos (st ct) \<Longrightarrow> display_value ct2 = (display_value ct)[?p := 0]"
    using np cnt assms(6,7) by (simp add: blank_increment BLANK_C_def DASH_C_def)
  have lend: "length (display_value ?cd) = 4"
    using len by simp
  have oldd: "display_value ?cd ! nat (input_pos ?cd) < INT_MAX"
    using p by (simp add: DASH_C_def INT_MAX_def)
  obtain cd1 cd2 where ed: "subgoal_pos ?cd = Inr cd1" "subgoal_count cd1 = Inr cd2"
      and fd: "current_goal cd2 = current_goal ?cd"
      and npd: "\<not> pos (st ?cd) \<longrightarrow> cd1 = ?cd"
      and cntd: "count (st ?cd) \<longrightarrow>
              display_value cd2 = (display_value cd1)[nat (input_pos cd1) :=
                 (if display_value cd1 ! nat (input_pos cd1) = DASH_C then 0
                  else (display_value cd1 ! nat (input_pos cd1) + 1) smod 16)]"
    using subgoal_edit [of ?cd, OF lend _ _ oldd] assms(2,3) by auto
  have gd: "0 \<le> current_goal cd2" "current_goal cd2 < 10"
    using assms(4,5) fd by simp_all
  have samed: "\<not> pos (st ct) \<Longrightarrow> display_value cd2 = (display_value ct)[?p := 0]"
    using npd cntd assms(6) p by simp
  show ?thesis
    unfolding subgoal_handler_after_edit [OF e g] subgoal_handler_after_edit [OF ed gd]
    using zero same samed f(5) by (simp add: blank_increment)
qed

theorem subgoal_count_blank_witness:
  "valid_context (ct_subgoal\<lparr> display_value := [0, 1, 2, BLANK_C],
                    st := (st ct_subgoal)\<lparr> count := True \<rparr> \<rparr>) \<and>
   input_pos ct_subgoal = 3 \<and> current_goal ct_subgoal = 0 \<and>
   subgoal_handler (ct_subgoal\<lparr> display_value := [0, 1, 2, BLANK_C],
                      st := (st ct_subgoal)\<lparr> count := True \<rparr> \<rparr>) =
     Inr (ct_subgoal\<lparr> display_value := [0, 1, 2, 0],
            st := (st ct_subgoal)\<lparr> count := True \<rparr> \<rparr>, SUBGOAL)"
proof -
  let ?c = "ct_subgoal\<lparr> display_value := [0, 1, 2, BLANK_C],
                    st := (st ct_subgoal)\<lparr> count := True \<rparr> \<rparr>"
  have v: "valid_context ?c"
    using valid_ct_subgoal
    by (simp add: valid_context_def is_int_def INT_MIN_def INT_MAX_def BLANK_C_def)
  have i: "0 \<le> input_pos ?c" "input_pos ?c < 4" "0 \<le> current_goal ?c" "current_goal ?c < 10"
      "count (st ?c)" "display_value ?c ! nat (input_pos ?c) = BLANK_C"
    by (simp_all add: ct_subgoal_eq)
  have s: "subgoal_handler ?c =
     Inr (ct_subgoal\<lparr> display_value := [0, 1, 2, 0],
            st := (st ct_subgoal)\<lparr> count := True \<rparr> \<rparr>, SUBGOAL)"
    by (simp add: subgoal_handler_def subgoal_pos_def subgoal_count_def Let_def ct_subgoal_eq
        count_matches_4 all_less_4 DASH_C_def BLANK_C_def INT_MAX_def signed_modulo_int_def)
  show ?thesis
    using subgoal_count_blank [OF v i] v s by (simp add: ct_subgoal_eq)
qed

section \<open>The SATCON and COMPLETE states\<close>

text \<open>
  C10. \<open>satcon_handler\<close> returns the context it was given: it only writes the LED pin.
  \<open>complete_handler\<close> returns the context it was given while no reset is pending, and
  on a reset changes nothing but the flag \<open>completed\<close>, which it clears. So display,
  cursor, distance, goal indices and goals are the same after both handlers.
\<close>

theorem satcon_complete_frame:
  "fst (fst (satcon_handler ct)) = ct \<and>
   snd (fst (satcon_handler ct)) = (if satcon (st ct) then MAIN else SATCON) \<and>
   list_all (\<lambda>w. fst w = LED_R) (snd (satcon_handler ct)) \<and>
   complete_handler ct =
     (if reset (st ct) then (ct\<lparr> st := (st ct)\<lparr> completed := False \<rparr> \<rparr>, FETCH)
      else (ct, COMPLETE)) \<and>
   display_value (fst (complete_handler ct)) = display_value ct \<and>
   input_pos (fst (complete_handler ct)) = input_pos ct \<and>
   distance (fst (complete_handler ct)) = distance ct \<and>
   current_goal (fst (complete_handler ct)) = current_goal ct \<and>
   final_goal (fst (complete_handler ct)) = final_goal ct \<and>
   goals (fst (complete_handler ct)) = goals ct \<and>
   btn (fst (complete_handler ct)) = btn ct"
  by (simp add: satcon_handler_def complete_handler_def)

theorem satcon_complete_frame_witness:
  "satcon_handler ct_subgoal = ((ct_subgoal, MAIN), [(LED_R, True), (LED_R, False)]) \<and>
   satcon_handler ct_setup = ((ct_setup, SATCON), [(LED_R, True)]) \<and>
   complete_handler (ct_subgoal\<lparr> st := (st ct_subgoal)\<lparr> completed := True, reset := True \<rparr> \<rparr>) =
     (ct_subgoal\<lparr> st := (st ct_subgoal)\<lparr> completed := False, reset := True \<rparr> \<rparr>, FETCH) \<and>
   complete_handler (ct_subgoal\<lparr> st := (st ct_subgoal)\<lparr> completed := True \<rparr> \<rparr>) =
     (ct_subgoal\<lparr> st := (st ct_subgoal)\<lparr> completed := True \<rparr> \<rparr>, COMPLETE)"
  using satcon_complete_frame [of ct_subgoal] satcon_complete_frame [of ct_setup]
    satcon_complete_frame
      [of "ct_subgoal\<lparr> st := (st ct_subgoal)\<lparr> completed := True, reset := True \<rparr> \<rparr>"]
    satcon_complete_frame [of "ct_subgoal\<lparr> st := (st ct_subgoal)\<lparr> completed := True \<rparr> \<rparr>"]
  by (simp add: satcon_handler_def ct_subgoal_eq ct_setup_eq)

section \<open>Determinism of the state handlers\<close>

lemma fetch_poll_find:
  "fetch_poll polls ct =
     (case find (\<lambda>p. p \<noteq> None) polls of
        Some (Some (lat, lng)) \<Rightarrow> fetch_poll [Some (lat, lng)] ct
      | _ \<Rightarrow> ct)"
  by (induction polls ct rule: fetch_poll.induct) simp_all

text \<open>
  C7 (amended). Every state handler but FETCH is a function of the context alone: what
  \<open>handle\<close> returns does not depend on the data that arrives on the serial port. The
  result of FETCH is determined by the context together with the first location that
  is received within its polling window.
\<close>

theorem handle_deterministic:
  "(h \<noteq> FETCH \<longrightarrow> handle h polls ct = handle h polls' ct) \<and>
   (find (\<lambda>p. p \<noteq> None) polls = find (\<lambda>p. p \<noteq> None) polls' \<longrightarrow>
      handle h polls ct = handle h polls' ct)"
proof (intro conjI impI)
  assume "h \<noteq> FETCH"
  then show "handle h polls ct = handle h polls' ct"
    by (cases h) (simp_all add: handle_def)
next
  assume eq: "find (\<lambda>p. p \<noteq> None) polls = find (\<lambda>p. p \<noteq> None) polls'"
  have "fetch_poll polls c = fetch_poll polls' c" for c
    using eq by (simp add: fetch_poll_find [of polls] fetch_poll_find [of polls'])
  then have "fetch_handler polls ct = fetch_handler polls' ct"
    by (simp add: fetch_handler_def)
  then show "handle h polls ct = handle h polls' ct"
    by (cases h) (simp_all add: handle_def)
qed

theorem handle_deterministic_witness:
  "handle SATCON [] ct_setup = handle SATCON [Some (0, 0)] ct_setup \<and>
   handle SATCON [] ct_setup = Inr (ct_setup, SATCON) \<and>
   handle FETCH [None, Some (0, 0)] ct_setup = handle FETCH [Some (0, 0), Some (1, 1)] ct_setup \<and>
   handle FETCH [None, Some (0, 0)] ct_setup = Inr (ct_fetched, MAIN)"
  using handle_deterministic [of SATCON "[]" ct_setup "[Some (0, 0)]"]
    handle_deterministic [of FETCH "[None, Some (0, 0)]" ct_setup "[Some (0, 0), Some (1, 1)]"]
  by (simp add: handle_def satcon_handler_def fetch_handler_def ct_setup_eq ct_fetched_eq
      zero_goal_def eval_nat_numeral)

theorem fetch_handler_input_counterexample:
  "handle FETCH [] ct_setup \<noteq> handle FETCH [Some (0, 0)] ct_setup"
  by (simp add: handle_def fetch_handler_def ct_setup_eq)

section \<open>Debounced buttons\<close>

lemma upt_3: "[0..<3] = [0, 1, 2]"
  by (simp add: upt_rec)

lemma get_set_event:
  "get_event e (set_event e' v s) = (if e = e' then v else get_event e s)"
  by (cases e; cases e') simp_all

text \<open>The buttons as \<open>init_context\<close> wires them: one flag each.\<close>

lemma button_step_rejected:
  assumes "current_time \<le> next_check"
  shows "button_step current_time lv i (ct, next_check) =
           (ct\<lparr> st := set_event (event (btn ct ! i)) False (st ct) \<rparr>, next_check)"
proof -
  have "\<not> next_check < current_time"
    using assms by (rule leD)
  then show ?thesis
    by (simp add: button_step_def Let_def)
qed

lemma update_buttons_rejected:
  assumes "current_time \<le> next_check"
  shows "update_buttons current_time lv (ct, next_check) =
           (ct\<lparr> st := set_event (event (btn ct ! 2)) False
                    (set_event (event (btn ct ! 1)) False
                      (set_event (event (btn ct ! 0)) False (st ct))) \<rparr>, next_check)"
  using assms by (simp add: update_buttons_def upt_3 button_step_rejected)

lemma button_step_next_check:
  "snd (button_step t lv i s) = snd s \<or> snd (button_step t lv i s) = t + BTN_DELAY"
  by (simp add: button_step_def Let_def)

lemma update_buttons_next_check:
  "snd (update_buttons t lv s) = snd s \<or> snd (update_buttons t lv s) = t + BTN_DELAY"
proof -
  let ?s1 = "button_step t lv 0 s"
  let ?s2 = "button_step t lv 1 ?s1"
  let ?s3 = "button_step t lv 2 ?s2"
  have "snd ?s1 = snd s \<or> snd ?s1 = t + BTN_DELAY"
    by (rule button_step_next_check)
  moreover have "snd ?s2 = snd ?s1 \<or> snd ?s2 = t + BTN_DELAY"
    by (rule button_step_next_check)
  moreover have "snd ?s3 = snd ?s2 \<or> snd ?s3 = t + BTN_DELAY"
    by (rule button_step_next_check)
  moreover have "update_buttons t lv s = ?s3"
    by (simp add: update_buttons_def upt_3)
  ultimately show ?thesis
    by auto
qed

text \<open>
  While the millisecond counter does not wrap around, a call that accepts a level
  change closes the window: every call up to \<open>BTN_DELAY\<close> milliseconds later accepts
  nothing, it keeps the buttons and the time stamp and clears the flags of the buttons.
\<close>

lemma debounce_without_wrap:
  assumes nowrap: "unat t1 + 100 < 2 ^ 32"
      and later: "unat t2 \<le> unat t1 + 100"
      and accepted: "snd (update_buttons t1 lv1 s) \<noteq> snd s"
  shows "update_buttons t2 lv2 (update_buttons t1 lv1 s) =
           (let ct = fst (update_buttons t1 lv1 s)
            in (ct\<lparr> st := set_event (event (btn ct ! 2)) False
                    (set_event (event (btn ct ! 1)) False
                      (set_event (event (btn ct ! 0)) False (st ct))) \<rparr>, t1 + BTN_DELAY))"
proof -
  have nc: "snd (update_buttons t1 lv1 s) = t1 + BTN_DELAY"
    using update_buttons_next_check [of t1 lv1 s] accepted by simp
  have "unat (t1 + BTN_DELAY) = unat t1 + 100"
    using nowrap by (simp add: BTN_DELAY_def unat_word_ariths)
  then have le: "t2 \<le> t1 + BTN_DELAY"
    using later by (simp add: word_le_nat_alt)
  have "update_buttons t2 lv2 (update_buttons t1 lv1 s) =
          update_buttons t2 lv2 (fst (update_buttons t1 lv1 s), t1 + BTN_DELAY)"
    using nc by (metis prod.collapse)
  then show ?thesis
    by (simp add: update_buttons_rejected [OF le] Let_def)
qed


lemma button_step_btn_length:
  "length (btn (fst (button_step t lv i s))) = length (btn (fst s))"
  by (simp add: button_step_def Let_def)

text \<open>
  A flag that a call of \<open>update_buttons\<close> leaves set belongs to a button that was up
  before the call and is down after it.
\<close>

lemma update_buttons_edge:
  assumes wiring: "map event (btn ct) = [ST_RESET, ST_POS, ST_COUNT]"
      and i: "i < 3"
      and flag: "get_event (event (btn ct ! i)) (st (fst (update_buttons t lv (ct, nc))))"
  shows "\<not> was_down (btn ct ! i) \<and> was_down (btn (fst (update_buttons t lv (ct, nc))) ! i)"
proof -
  obtain b0 b1 b2 where b: "btn ct = [b0, b1, b2]"
      and e: "event b0 = ST_RESET" "event b1 = ST_POS" "event b2 = ST_COUNT"
    using wiring by (auto simp: map_eq_Cons_conv)
  have "i = 0 \<or> i = 1 \<or> i = 2"
    using i by auto
  then show ?thesis
    using flag b e
    by (elim disjE)
      (auto simp: update_buttons_def upt_3 button_step_def Let_def split: if_splits)
qed

lemma update_buttons_wiring:
  assumes "map event (btn ct) = [ST_RESET, ST_POS, ST_COUNT]"
  shows "map event (btn (fst (update_buttons t lv (ct, nc)))) = [ST_RESET, ST_POS, ST_COUNT]"
proof -
  obtain b0 b1 b2 where b: "btn ct = [b0, b1, b2]"
      and e: "event b0 = ST_RESET" "event b1 = ST_POS" "event b2 = ST_COUNT"
    using assms by (auto simp: map_eq_Cons_conv)
  show ?thesis
    using b e by (simp add: update_buttons_def upt_3 button_step_def Let_def)
qed

lemma update_buttons_held:
  assumes wiring: "map event (btn ct) = [ST_RESET, ST_POS, ST_COUNT]"
      and i: "i < 3"
      and down: "was_down (btn ct ! i)"
  shows "\<not> get_event (event (btn ct ! i)) (st (fst (update_buttons t lv (ct, nc))))"
  using update_buttons_edge [OF wiring i] down by blast


lemma handle_btn:
  assumes "handle h polls ct = Inr (ct', h')"
  shows "btn ct' = btn ct"
proof (cases h)
  case MAIN
  have "btn (set_distance ct) = btn ct"
    by (subst set_distance_frame) simp
  then show ?thesis
    using MAIN assms by (auto simp: handle_def main_handler_def Let_def split: if_splits)
next
  case FETCH
  have "btn (fetch_poll polls c) = btn c" for c
    by (induction polls c rule: fetch_poll.induct) simp_all
  then show ?thesis
    using FETCH assms by (auto simp: handle_def fetch_handler_def Let_def split: if_splits)
next
  case SATCON
  then show ?thesis
    using assms by (auto simp: handle_def satcon_handler_def split: if_splits)
next
  case SUBGOAL
  then obtain ct1 ct2 where e: "subgoal_pos ct = Inr ct1" "subgoal_count ct1 = Inr ct2"
      and r: "btn ct' = btn ct2"
    using assms
    by (auto simp: handle_def subgoal_handler_def Let_def split: sum.splits if_splits)
  have "btn ct2 = btn ct1"
    using e(2) by (auto simp: subgoal_count_def Let_def split: if_splits)
  moreover have "btn ct1 = btn ct"
    using e(1) by (auto simp: subgoal_pos_def Let_def split: if_splits)
  ultimately show ?thesis
    using r by simp
next
  case NEXT_GOAL
  then show ?thesis
    using assms by (auto simp: handle_def next_goal_handler_def Let_def split: if_splits)
next
  case COMPLETE
  then show ?thesis
    using assms by (auto simp: handle_def complete_handler_def split: if_splits)
qed

text \<open>
  An edge flag is not set in two successive iterations of \<open>loop\<close>: when a call of
  \<open>update_buttons\<close> leaves the flag of a button set, the call of the next iteration,
  after the handler has run, clears it, whatever the time and the levels are.
\<close>

lemma edge_flag_one_iteration:
  assumes wiring: "map event (btn ct) = [ST_RESET, ST_POS, ST_COUNT]"
      and i: "i < 3"
      and flag: "get_event (event (btn ct ! i)) (st (fst (update_buttons t1 lv1 (ct, nc))))"
      and step: "handle h polls (fst (update_buttons t1 lv1 (ct, nc))) = Inr (ct', h')"
  shows "\<not> get_event (event (btn ct ! i)) (st (fst (update_buttons t2 lv2 (ct', nc'))))"
proof -
  let ?c1 = "fst (update_buttons t1 lv1 (ct, nc))"
  have w1: "map event (btn ?c1) = [ST_RESET, ST_POS, ST_COUNT]"
    using wiring by (rule update_buttons_wiring)
  have b: "btn ct' = btn ?c1"
    using step by (rule handle_btn)
  have down: "was_down (btn ct' ! i)"
    using update_buttons_edge [OF wiring i flag] b by simp
  have w': "map event (btn ct') = [ST_RESET, ST_POS, ST_COUNT]"
    using w1 b by simp
  have "event (btn ct' ! i) = event (btn ct ! i)"
  proof -
    have "event (btn ct' ! i) = map event (btn ct') ! i"
      using w' i by (metis length_map nth_map length_Cons list.size(3) numeral_3_eq_3)
    moreover have "event (btn ct ! i) = map event (btn ct) ! i"
      using wiring i by (metis length_map nth_map length_Cons list.size(3) numeral_3_eq_3)
    ultimately show ?thesis
      using w' wiring by simp
  qed
  then show ?thesis
    using update_buttons_held [OF w' i down, of t2 lv2 nc'] by simp
qed

text \<open>
  C6. At the wrap-around of the millisecond counter the window is not kept: the press
  at \<open>2^32 - 50\<close> sets \<open>next_check\<close> to 50, so the release 10 ms later and the second
  press 20 ms later are both accepted, and the reset flag is set twice within 20 ms.
\<close>

theorem debounce_wrap_around:
  "reset (st (fst wrap_poll1)) \<and> was_down (btn (fst wrap_poll1) ! 0) \<and> snd wrap_poll1 = 50 \<and>
   \<not> reset (st (fst wrap_poll2)) \<and> \<not> was_down (btn (fst wrap_poll2) ! 0) \<and>
   snd wrap_poll2 = 60 \<and>
   reset (st (fst wrap_poll3)) \<and> was_down (btn (fst wrap_poll3) ! 0) \<and> snd wrap_poll3 = 70"
  by (simp add: wrap_poll3_def wrap_poll2_def wrap_poll1_def update_buttons_def upt_3
      button_step_def Let_def ct_setup_eq next_check_init_def BTN_DELAY_def RESET_def)

section \<open>The cursor position\<close>

lemma button_step_frame:
  "input_pos (fst (button_step t lv i s)) = input_pos (fst s) \<and>
   display_value (fst (button_step t lv i s)) = display_value (fst s) \<and>
   distance (fst (button_step t lv i s)) = distance (fst s) \<and>
   current_goal (fst (button_step t lv i s)) = current_goal (fst s) \<and>
   final_goal (fst (button_step t lv i s)) = final_goal (fst s) \<and>
   goals (fst (button_step t lv i s)) = goals (fst s)"
  by (simp add: button_step_def Let_def)

lemma update_buttons_frame:
  "input_pos (fst (update_buttons t lv s)) = input_pos (fst s) \<and>
   display_value (fst (update_buttons t lv s)) = display_value (fst s) \<and>
   distance (fst (update_buttons t lv s)) = distance (fst s) \<and>
   current_goal (fst (update_buttons t lv s)) = current_goal (fst s) \<and>
   final_goal (fst (update_buttons t lv s)) = final_goal (fst s) \<and>
   goals (fst (update_buttons t lv s)) = goals (fst s)"
proof -
  have upt3: "[0..<3] = [0, 1, 2]"
    by (simp add: upt_rec)
  show ?thesis
    unfolding update_buttons_def upt3 by (simp add: button_step_frame)
qed

lemma fetch_poll_input_pos: "input_pos (fetch_poll polls ct) = input_pos ct"
  by (induction polls ct rule: fetch_poll.induct) simp_all

lemma main_handler_input_pos:
  "input_pos (fst (main_handler ct)) =
     (if snd (main_handler ct) = SUBGOAL then 0 else input_pos ct)"
proof -
  have "input_pos (set_distance ct) = input_pos ct"
    by (subst set_distance_frame) simp
  then show ?thesis
    by (simp add: main_handler_def Let_def)
qed

lemma subgoal_handler_input_pos:
  assumes "subgoal_handler ct = Inr (ct', h')"
  shows "input_pos ct' = (if pos (st ct) then (input_pos ct + 1) smod 4 else input_pos ct) \<and>
         (pos (st ct) \<longrightarrow> 0 \<le> input_pos ct \<and> input_pos ct < 4)"
proof -
  obtain ct1 ct2 where e: "subgoal_pos ct = Inr ct1" "subgoal_count ct1 = Inr ct2"
      and r: "input_pos ct' = input_pos ct2"
    using assms
    by (auto simp: subgoal_handler_def Let_def split: sum.splits if_splits)
  have "input_pos ct2 = input_pos ct1"
    using e(2) by (auto simp: subgoal_count_def Let_def split: if_splits)
  moreover have "input_pos ct1 = (if pos (st ct) then (input_pos ct + 1) smod 4 else input_pos ct) \<and>
         (pos (st ct) \<longrightarrow> 0 \<le> input_pos ct \<and> input_pos ct < 4)"
    using e(1) by (auto simp: subgoal_pos_def Let_def split: if_splits)
  ultimately show ?thesis
    using r by simp
qed

lemma next_goal_handler_input_pos:
  assumes "next_goal_handler ct = Inr (ct', h')"
  shows "input_pos ct' = input_pos ct"
  using assms by (auto simp: next_goal_handler_def Let_def split: if_splits)

lemma update_loc_poll_frame:
  assumes "update_loc_poll hav polls s = Inr s'"
  shows "input_pos (fst s') = input_pos (fst s) \<and> display_value (fst s') = display_value (fst s) \<and>
         current_goal (fst s') = current_goal (fst s) \<and> final_goal (fst s') = final_goal (fst s) \<and>
         goals (fst s') = goals (fst s) \<and> btn (fst s') = btn (fst s)"
  using assms
  by (induction hav polls s rule: update_loc_poll.induct)
    (auto simp: Let_def split: if_splits)

lemma update_loc_frame:
  assumes "update_loc hav polls t_end s = Inr s'"
  shows "input_pos (fst s') = input_pos (fst s) \<and> display_value (fst s') = display_value (fst s) \<and>
         current_goal (fst s') = current_goal (fst s) \<and> final_goal (fst s') = final_goal (fst s) \<and>
         goals (fst s') = goals (fst s) \<and> btn (fst s') = btn (fst s)"
proof -
  obtain ct lu where p: "update_loc_poll hav polls s = Inr (ct, lu)"
      and s': "s' = (ct\<lparr> st := (st ct)\<lparr> satcon := (t_end < lu + GPS_TIMEOUT) \<rparr> \<rparr>, lu)"
    using assms by (auto simp: update_loc_def split: sum.splits prod.splits)
  show ?thesis
    using update_loc_poll_frame [OF p] s' by simp
qed

lemma to_int8_range: "- 128 \<le> to_int8 x" "to_int8 x \<le> 127"
  by (simp_all add: to_int8_def)

lemma set_distance_symbols:
  assumes "length (display_value ct) = 4"
  shows "list_all (\<lambda>v. - 128 \<le> v \<and> v \<le> 255) (display_value (set_distance ct))"
proof -
  have a: "- 128 \<le> to_int8 x \<and> to_int8 x \<le> 255" for x
    using to_int8_range [of x] by simp
  show ?thesis
    using assms a by (simp add: set_distance_display Let_def list4_update BLANK_C_def)
qed

lemma list_all_update:
  assumes "list_all P xs" "P v"
  shows "list_all P (xs[i := v])"
proof -
  have "set (xs[i := v]) \<subseteq> insert v (set xs)"
    by (rule set_update_subset_insert)
  then show ?thesis
    using assms by (auto simp: list_all_iff)
qed


lemma update_loc_poll_inv:
  assumes "context_inv (fst s)"
  shows "\<exists>s'. update_loc_poll hav polls s = Inr s' \<and> context_inv (fst s') \<and>
           final_goal (fst s') = final_goal (fst s)"
  using assms
proof (induction hav polls s rule: update_loc_poll.induct)
  case (1 haversine s)
  then show ?case by simp
next
  case (2 haversine polls s)
  then show ?case by simp
next
  case (3 haversine f polls s)
  then show ?case
    by (auto simp: context_inv_def Let_def)
qed

lemma update_loc_inv:
  assumes "context_inv ct"
  shows "\<exists>ct' lu'. update_loc hav polls t_end (ct, lu) = Inr (ct', lu') \<and> context_inv ct' \<and>
           final_goal ct' = final_goal ct"
proof -
  obtain s' where p: "update_loc_poll hav polls (ct, lu) = Inr s'"
      and i: "context_inv (fst s')" and f: "final_goal (fst s') = final_goal ct"
    using update_loc_poll_inv [of "(ct, lu)" hav polls] assms by auto
  obtain c1 l1 where s': "s' = (c1, l1)"
    by (cases s')
  have "context_inv (c1\<lparr> st := (st c1)\<lparr> satcon := (t_end < l1 + GPS_TIMEOUT) \<rparr> \<rparr>)"
    using i s' by (simp add: context_inv_def)
  then show ?thesis
    using p s' f by (simp add: update_loc_def)
qed

lemma set_event_flags:
  "fetched (set_event e v s) = fetched s" "reached (set_event e v s) = reached s"
  "satcon (set_event e v s) = satcon s" "state.passwd (set_event e v s) = state.passwd s"
  "completed (set_event e v s) = completed s"
  by (cases e; simp)+

lemma button_step_inv:
  assumes "context_inv (fst s)"
  shows "context_inv (fst (button_step t lv i s)) \<and>
         final_goal (fst (button_step t lv i s)) = final_goal (fst s)"
  using assms by (simp add: button_step_def Let_def context_inv_def set_event_flags)

lemma update_buttons_inv:
  assumes "context_inv ct"
  shows "context_inv (fst (update_buttons t lv (ct, nc))) \<and>
         final_goal (fst (update_buttons t lv (ct, nc))) = final_goal ct"
proof -
  let ?s1 = "button_step t lv 0 (ct, nc)"
  let ?s2 = "button_step t lv 1 ?s1"
  let ?s3 = "button_step t lv 2 ?s2"
  have 1: "context_inv (fst ?s1) \<and> final_goal (fst ?s1) = final_goal ct"
    using button_step_inv [of "(ct, nc)" t lv 0] assms by simp
  then have 2: "context_inv (fst ?s2) \<and> final_goal (fst ?s2) = final_goal ct"
    using button_step_inv [of ?s1 t lv 1] by simp
  then have 3: "context_inv (fst ?s3) \<and> final_goal (fst ?s3) = final_goal ct"
    using button_step_inv [of ?s2 t lv 2] by simp
  have "update_buttons t lv (ct, nc) = ?s3"
    by (simp add: update_buttons_def upt_3)
  then show ?thesis
    using 3 by simp
qed


lemma main_handler_inv:
  assumes "context_inv ct"
  shows "context_inv (fst (main_handler ct)) \<and>
         (past_fetch (snd (main_handler ct)) \<longrightarrow> final_goal (fst (main_handler ct)) = 0)"
proof -
  have len: "length (display_value ct) = 4"
    using assms by (simp add: context_inv_def)
  have len': "length (display_value (set_distance ct)) = 4"
    using len by (simp add: set_distance_display Let_def)
  show ?thesis
    using assms set_distance_symbols [OF len] len'
    by (simp add: main_handler_eq [OF len] Let_def context_inv_def past_fetch_def
        DASH_C_def BLANK_C_def)
qed

lemma fetch_poll_cases:
  "fetch_poll polls c = c \<or>
   (\<exists>lat lng. fetch_poll polls c = fetch_poll [Some (lat, lng)] c)"
  by (induction polls c rule: fetch_poll.induct) auto

lemma fetch_handler_inv:
  assumes "context_inv ct"
  shows "context_inv (fst (fetch_handler polls ct)) \<and>
         \<not> past_fetch (snd (fetch_handler polls ct))"
proof -
  let ?c = "ct\<lparr> st := (st ct)\<lparr> fetched := False \<rparr> \<rparr>"
  have c: "context_inv ?c"
    using assms by (simp add: context_inv_def)
  have "context_inv (fetch_poll polls ?c)"
    using fetch_poll_cases [of polls ?c] c by (auto simp: context_inv_def)
  then show ?thesis
    by (simp add: fetch_handler_def Let_def past_fetch_def)
qed

lemma smod_16_range: "- 128 \<le> (x::int) smod 16 \<and> x smod 16 \<le> 255"
proof -
  have a: "0 \<le> x mod 16" "x mod 16 < 16" "0 \<le> (- x) mod 16" "(- x) mod 16 < 16"
    by simp_all
  show ?thesis
  proof (cases "x < 0")
    case True
    then have "x smod 16 = - ((- x) mod 16)"
      by (simp add: signed_modulo_int_def)
    then show ?thesis
      using a(3,4) by linarith
  next
    case False
    then have "x smod 16 = x mod 16"
      by (cases "x = 0") (simp_all add: signed_modulo_int_def)
    then show ?thesis
      using a(1,2) by linarith
  qed
qed

lemma subgoal_pos_symbols:
  assumes "subgoal_pos ct = Inr ct1"
      and "list_all (\<lambda>v. - 128 \<le> v \<and> v \<le> 255) (display_value ct)"
  shows "list_all (\<lambda>v. - 128 \<le> v \<and> v \<le> 255) (display_value ct1)"
proof (cases "pos (st ct)")
  case False
  then show ?thesis
    using assms by (simp add: subgoal_pos_def)
next
  case True
  let ?P = "\<lambda>v::int. - 128 \<le> v \<and> v \<le> 255"
  have b: "?P BLANK_C" and d: "?P DASH_C"
    by (simp_all add: BLANK_C_def DASH_C_def)
  have "list_all ?P ((display_value ct)[nat (input_pos ct) := BLANK_C])"
    using assms(2) b by (rule list_all_update)
  then have "list_all ?P ((if display_value ct ! nat (input_pos ct) = DASH_C
                then (display_value ct)[nat (input_pos ct) := BLANK_C]
                else display_value ct)[nat ((input_pos ct + 1) smod 4) := DASH_C])"
    using assms(2) d by (simp add: list_all_update)
  then show ?thesis
    using True assms(1) by (auto simp: subgoal_pos_def Let_def split: if_splits)
qed

lemma subgoal_count_symbols:
  assumes "subgoal_count ct = Inr ct2"
      and "list_all (\<lambda>v. - 128 \<le> v \<and> v \<le> 255) (display_value ct)"
  shows "list_all (\<lambda>v. - 128 \<le> v \<and> v \<le> 255) (display_value ct2)"
proof (cases "count (st ct)")
  case False
  then show ?thesis
    using assms by (simp add: subgoal_count_def)
next
  case True
  let ?P = "\<lambda>v::int. - 128 \<le> v \<and> v \<le> 255"
  have "list_all ?P ((display_value ct)[nat (input_pos ct) := v])" if "?P v" for v
    using assms(2) that by (rule list_all_update)
  then show ?thesis
    using True assms(1) smod_16_range
    by (auto simp: subgoal_count_def Let_def split: if_splits)
qed

lemma subgoal_handler_inv:
  assumes inv: "context_inv ct" and fin: "final_goal ct = 0"
  shows "\<exists>ct' h'. subgoal_handler ct = Inr (ct', h') \<and> context_inv ct' \<and> final_goal ct' = 0"
proof -
  have len: "length (display_value ct) = 4"
      and cur: "0 \<le> input_pos ct" "input_pos ct < 4"
      and sym: "list_all (\<lambda>v. - 128 \<le> v \<and> v \<le> 255) (display_value ct)"
      and cg: "current_goal ct = 0"
    using inv by (simp_all add: context_inv_def)
  have "nat (input_pos ct) < length (display_value ct)"
    using len cur by simp
  then have "display_value ct ! nat (input_pos ct) \<le> 255"
    using sym by (simp add: list_all_length)
  then have old: "display_value ct ! nat (input_pos ct) < INT_MAX"
    by (simp add: INT_MAX_def)
  obtain ct1 ct2 where e: "subgoal_pos ct = Inr ct1" "subgoal_count ct1 = Inr ct2"
      and f: "st ct2 = st ct" "goals ct2 = goals ct" "current_goal ct2 = current_goal ct"
        "final_goal ct2 = final_goal ct" "btn ct2 = btn ct" "length (display_value ct2) = 4"
        "input_pos ct2 = (if pos (st ct) then (input_pos ct + 1) mod 4 else input_pos ct)"
    using subgoal_edit [OF len cur old] by blast
  have g: "0 \<le> current_goal ct2" "current_goal ct2 < 10"
    using cg f by simp_all
  have sym2: "list_all (\<lambda>v. - 128 \<le> v \<and> v \<le> 255) (display_value ct2)"
    using subgoal_count_symbols [OF e(2) subgoal_pos_symbols [OF e(1) sym]] .
  have c2: "0 \<le> input_pos ct2" "input_pos ct2 \<le> 3"
    using f(7) cur by (simp_all split: if_splits)
  have "context_inv (ct2\<lparr> st := (st ct2)\<lparr> passwd := b \<rparr> \<rparr>) \<and>
        final_goal (ct2\<lparr> st := (st ct2)\<lparr> passwd := b \<rparr> \<rparr>) = 0" for b
    using inv fin f sym2 c2 by (simp add: context_inv_def)
  then show ?thesis
    unfolding subgoal_handler_after_edit [OF e g] by blast
qed

lemma next_goal_handler_inv:
  assumes inv: "context_inv ct" and fin: "final_goal ct = 0"
  shows "\<exists>ct' h'. next_goal_handler ct = Inr (ct', h') \<and> context_inv ct' \<and> final_goal ct' = 0"
proof -
  have len: "length (display_value ct) = 4" and cg: "current_goal ct = 0"
    using inv by (simp_all add: context_inv_def)
  have "current_goal ct < INT_MAX"
    using cg by (simp add: INT_MAX_def)
  then show ?thesis
    using inv fin cg
    by (simp add: next_goal_handler_eq [OF len] context_inv_def DASH_C_def)
qed

lemma handle_inv:
  assumes inv: "context_inv ct" and fin: "past_fetch h \<longrightarrow> final_goal ct = 0"
  shows "\<exists>ct' h'. handle h polls ct = Inr (ct', h') \<and> context_inv ct' \<and>
           (past_fetch h' \<longrightarrow> final_goal ct' = 0)"
proof (cases h)
  case MAIN
  then show ?thesis
    using main_handler_inv [OF inv] by (simp add: handle_def prod_eq_iff)
next
  case FETCH
  then show ?thesis
    using fetch_handler_inv [OF inv, of polls] by (simp add: handle_def prod_eq_iff)
next
  case SATCON
  then show ?thesis
    using inv by (simp add: handle_def satcon_handler_def past_fetch_def)
next
  case SUBGOAL
  then have "final_goal ct = 0"
    using fin by (simp add: past_fetch_def)
  then show ?thesis
    using SUBGOAL subgoal_handler_inv [OF inv] by (auto simp: handle_def)
next
  case NEXT_GOAL
  then have "final_goal ct = 0"
    using fin by (simp add: past_fetch_def)
  then show ?thesis
    using NEXT_GOAL next_goal_handler_inv [OF inv] by (auto simp: handle_def)
next
  case COMPLETE
  then have "final_goal ct = 0"
    using fin by (simp add: past_fetch_def)
  then show ?thesis
    using COMPLETE inv by (simp add: handle_def complete_handler_def context_inv_def)
qed

lemma loop_inv:
  assumes "sketch_inv g"
  shows "\<exists>g'. loop hav inp g = Inr g' \<and> sketch_inv g'"
proof -
  have inv: "context_inv (context_g g)"
      and fin: "past_fetch (handler_g g) \<longrightarrow> final_goal (context_g g) = 0"
    using assms by (simp_all add: sketch_inv_def)
  obtain ct1 lu1 where
      l: "update_loc hav (loc_polls inp) (loc_end inp) (context_g g, static_last_update g) = Inr (ct1, lu1)"
      and i1: "context_inv ct1" and f1: "final_goal ct1 = final_goal (context_g g)"
    using update_loc_inv [OF inv] by blast
  obtain ct2 nc2 where
      b: "update_buttons (btn_millis inp) (pin_levels inp) (ct1, static_next_check g) = (ct2, nc2)"
    by (cases "update_buttons (btn_millis inp) (pin_levels inp) (ct1, static_next_check g)")
  have i2: "context_inv ct2" and f2: "final_goal ct2 = final_goal ct1"
    using update_buttons_inv [OF i1, of "btn_millis inp" "pin_levels inp" "static_next_check g"] b
    by simp_all
  have fin2: "past_fetch (handler_g g) \<longrightarrow> final_goal ct2 = 0"
    using fin f1 f2 by simp
  obtain ct3 h3 where
      h: "handle (handler_g g) (fetch_polls inp) ct2 = Inr (ct3, h3)"
      and i3: "context_inv ct3" and f3: "past_fetch h3 \<longrightarrow> final_goal ct3 = 0"
    using handle_inv [OF i2 fin2] by blast
  show ?thesis
    using l b h i3 f3 by (simp add: loop_def sketch_inv_def)
qed

lemma run_inv:
  assumes "sketch_inv g"
  shows "\<exists>g'. run hav inps g = Inr g' \<and> sketch_inv g'"
  using assms
proof (induction inps arbitrary: g)
  case Nil
  then show ?case by simp
next
  case (Cons inp inps)
  obtain g1 where "loop hav inp g = Inr g1" "sketch_inv g1"
    using loop_inv [OF Cons.prems] by blast
  then show ?case
    using Cons.IH [of g1] by simp
qed

lemma setup_inv: "sketch_inv (setup_sketch t0)"
  by (simp add: sketch_inv_def setup_sketch_def context_inv_def past_fetch_def
      ct_setup_eq [unfolded ct_setup_def])

lemma handle_input_pos:
  assumes cur: "0 \<le> input_pos ct" "input_pos ct \<le> 3"
      and a: "handle h polls ct = Inr (ct', h')"
  shows "input_pos ct' =
           (if h = MAIN \<and> h' = SUBGOAL then 0
            else if h = SUBGOAL \<and> pos (st ct) then (input_pos ct + 1) mod 4
            else input_pos ct)"
proof (cases h)
  case MAIN
  then have "main_handler ct = (ct', h')"
    using a by (simp add: handle_def)
  then show ?thesis
    using MAIN main_handler_input_pos [of ct] by simp
next
  case FETCH
  then show ?thesis
    using a by (auto simp: handle_def fetch_handler_def Let_def fetch_poll_input_pos
        split: if_splits)
next
  case SATCON
  then show ?thesis
    using a by (auto simp: handle_def satcon_handler_def split: if_splits)
next
  case SUBGOAL
  then have "subgoal_handler ct = Inr (ct', h')"
    using a by (simp add: handle_def)
  then show ?thesis
    using SUBGOAL subgoal_handler_input_pos [of ct ct' h'] cur
    by (simp add: smod_4_cursor)
next
  case NEXT_GOAL
  then show ?thesis
    using a next_goal_handler_input_pos [of ct ct' h'] by (simp add: handle_def)
next
  case COMPLETE
  then show ?thesis
    using a by (auto simp: handle_def complete_handler_def split: if_splits)
qed

text \<open>
  C8. \<open>init_context\<close> sets the cursor to 0. \<open>update_buttons\<close> and \<open>update_loc\<close> do not
  change it. A handler that returns leaves the cursor where it was, with two
  exceptions: MAIN sets it to 0 when it goes to SUBGOAL, and SUBGOAL moves it to the
  next position modulo 4 on a cursor event; so each handler keeps a cursor in 0..3 in
  0..3. The handlers of MAIN, FETCH, SATCON and COMPLETE always return. After \<open>setup\<close>,
  every sequence of iterations of \<open>loop\<close> runs through, whatever the inputs are, and
  ends with the cursor in 0..3.
\<close>

theorem cursor_in_range:
  "input_pos (init_context c0) = 0 \<and>
   input_pos (fst (update_buttons t lv (ct, nc))) = input_pos ct \<and>
   (update_loc haversine lpolls t_end (ct, lu) = Inr (ct1, lu1) \<longrightarrow>
      input_pos ct1 = input_pos ct) \<and>
   (h \<noteq> SUBGOAL \<and> h \<noteq> NEXT_GOAL \<longrightarrow> (\<exists>r. handle h polls ct = Inr r)) \<and>
   (0 \<le> input_pos ct \<and> input_pos ct \<le> 3 \<and> handle h polls ct = Inr (ct', h') \<longrightarrow>
      0 \<le> input_pos ct' \<and> input_pos ct' \<le> 3 \<and>
      input_pos ct' =
        (if h = MAIN \<and> h' = SUBGOAL then 0
         else if h = SUBGOAL \<and> pos (st ct) then (input_pos ct + 1) mod 4
         else input_pos ct)) \<and>
   (\<exists>g. run haversine inps (setup_sketch t0) = Inr g \<and>
        0 \<le> input_pos (context_g g) \<and> input_pos (context_g g) \<le> 3)"
proof (intro conjI impI)
  show "input_pos (init_context c0) = 0"
    by (simp add: init_context_def)
  show "input_pos (fst (update_buttons t lv (ct, nc))) = input_pos ct"
    using update_buttons_frame [of t lv "(ct, nc)"] by simp
  show "input_pos ct1 = input_pos ct"
    if "update_loc haversine lpolls t_end (ct, lu) = Inr (ct1, lu1)"
    using update_loc_frame [OF that] by simp
  show "\<exists>r. handle h polls ct = Inr r" if "h \<noteq> SUBGOAL \<and> h \<noteq> NEXT_GOAL"
    using that by (cases h) (simp_all add: handle_def)
  show "\<exists>g. run haversine inps (setup_sketch t0) = Inr g \<and>
        0 \<le> input_pos (context_g g) \<and> input_pos (context_g g) \<le> 3"
    using run_inv [OF setup_inv, of haversine inps t0]
    by (auto simp: sketch_inv_def context_inv_def)
next
  assume a: "0 \<le> input_pos ct \<and> input_pos ct \<le> 3 \<and> handle h polls ct = Inr (ct', h')"
  then have c: "0 \<le> input_pos ct" "input_pos ct \<le> 3"
      and hd: "handle h polls ct = Inr (ct', h')"
    by simp_all
  have eq: "input_pos ct' =
        (if h = MAIN \<and> h' = SUBGOAL then 0
         else if h = SUBGOAL \<and> pos (st ct) then (input_pos ct + 1) mod 4
         else input_pos ct)"
    using c hd by (rule handle_input_pos)
  show "input_pos ct' =
        (if h = MAIN \<and> h' = SUBGOAL then 0
         else if h = SUBGOAL \<and> pos (st ct) then (input_pos ct + 1) mod 4
         else input_pos ct)"
    by (rule eq)
  have "0 \<le> (input_pos ct + 1) mod 4" "(input_pos ct + 1) mod 4 \<le> 3"
    by simp_all
  then show "0 \<le> input_pos ct'" "input_pos ct' \<le> 3"
    using eq a by (auto split: if_splits)
qed

theorem cursor_in_range_witness:
  "input_pos ct_subgoal = 3 \<and>
   handle SUBGOAL [] (ct_subgoal\<lparr> st := (st ct_subgoal)\<lparr> pos := True \<rparr> \<rparr>) =
     Inr (ct_subgoal\<lparr> input_pos := 0, display_value := [DASH_C, 1, 2, 2],
            st := (st ct_subgoal)\<lparr> pos := True \<rparr> \<rparr>, SUBGOAL) \<and>
   input_pos (fst (update_buttons 1000 (\<lambda>p. p \<noteq> POS) (ct_subgoal, next_check_init))) = 3 \<and>
   handle FETCH [] ct_subgoal =
     Inr (ct_subgoal\<lparr> st := (st ct_subgoal)\<lparr> fetched := False \<rparr> \<rparr>, FETCH) \<and>
   run (\<lambda>g lt ln. 7)
     [\<lparr> loc_polls = [], loc_end = 10, btn_millis = 11, pin_levels = (\<lambda>p. True),
        fetch_polls = [] \<rparr>] (setup_sketch 0) =
     Inr \<lparr> context_g = ct_setup\<lparr> display_value := [DASH_C, DASH_C, DASH_C, DASH_C],
                          st := (st ct_setup)\<lparr> satcon := True \<rparr> \<rparr>,
           handler_g = MAIN, static_last_update = 0, static_next_check = 0 \<rparr>"
proof -
  let ?c = "ct_subgoal\<lparr> st := (st ct_subgoal)\<lparr> pos := True \<rparr> \<rparr>"
  let ?c' = "ct_subgoal\<lparr> input_pos := 0, display_value := [DASH_C, 1, 2, 2],
            st := (st ct_subgoal)\<lparr> pos := True \<rparr> \<rparr>"
  let ?inp = "\<lparr> loc_polls = [], loc_end = 10, btn_millis = 11, pin_levels = (\<lambda>p. True),
        fetch_polls = [] \<rparr>"
  have s: "handle SUBGOAL [] ?c = Inr (?c', SUBGOAL)"
    by (simp add: handle_def subgoal_handler_def subgoal_pos_def subgoal_count_def Let_def
        ct_subgoal_eq count_matches_4 all_less_4 DASH_C_def signed_modulo_int_def)
  have f: "handle FETCH [] ct_subgoal =
     Inr (ct_subgoal\<lparr> st := (st ct_subgoal)\<lparr> fetched := False \<rparr> \<rparr>, FETCH)"
    by (simp add: handle_def fetch_handler_def ct_subgoal_eq)
  have r: "run (\<lambda>g lt ln. 7) [?inp] (setup_sketch 0) =
     Inr \<lparr> context_g = ct_setup\<lparr> display_value := [DASH_C, DASH_C, DASH_C, DASH_C],
                          st := (st ct_setup)\<lparr> satcon := True \<rparr> \<rparr>,
           handler_g = MAIN, static_last_update = 0, static_next_check = 0 \<rparr>"
    by (simp add: loop_def update_loc_def update_buttons_def upt_3 button_step_def Let_def
        handle_def main_handler_def setup_sketch_def next_check_init_def GPS_TIMEOUT_def
        ct_setup_eq ct_setup_eq [unfolded ct_setup_def])
  show ?thesis
    using cursor_in_range [of ct_g 1000 "\<lambda>p. p \<noteq> POS" ?c next_check_init "\<lambda>g lt ln. 7" "[]" 0 0
        ?c 0 SUBGOAL "[]" ?c' SUBGOAL "[?inp]" 0]
      cursor_in_range [of ct_g 1000 "\<lambda>p. p \<noteq> POS" ct_subgoal next_check_init "\<lambda>g lt ln. 7" "[]" 0 0
        ct_subgoal 0 FETCH "[]"] s f r
    by (simp add: ct_subgoal_eq)
qed

end
